theory Spec2Isabelle
  imports Main "HOL-Library.Sublist"
begin

section \<open>Fyyur: the booking directory of \<^verbatim>\<open>app.py\<close>\<close>

text \<open>
  The development embeds the request handlers of \<^verbatim>\<open>app.py\<close> as functions over an
  explicit database value. The database is the one the models of \<^verbatim>\<open>app.py\<close> declare:
  five tables and two association tables, each a list of rows. A handler that only reads
  takes the database and returns its response; a handler that writes returns the database
  as it is after the request, that is after the last \<^verbatim>\<open>commit\<close> that succeeded.

  Conventions.
  \<^item> A nullable column is an \<open>option\<close>; \<open>None\<close> is SQL's NULL and Python's \<^verbatim>\<open>None\<close>.
  \<^item> Text is \<open>string\<close>: one \<open>char\<close> per character, so the model covers text whose
    code points are below 256.
  \<^item> A \<^verbatim>\<open>datetime\<close> is an \<open>int\<close>, a count of clock ticks; only its order is used.
  \<^item> A raised exception is \<open>Inl\<close> of the result. An exception that leaves a handler is
    answered by Flask with status 500, as \<^verbatim>\<open>abort(500)\<close> is.
  \<^item> The database enforces what the models declare: primary keys, foreign keys,
    \<^verbatim>\<open>nullable=False\<close> and the lengths of \<^verbatim>\<open>String(n)\<close> columns. A write that
    breaks one of them raises.
\<close>

subsection \<open>Python values, exceptions and responses\<close>

datatype pyval =
    PNone
  | PBool bool
  | PInt int
  | PStr string
  | PStrOfDatetime "int option"
  | PList "pyval list"
  | PDict "(string \<times> pyval) list"

text \<open>
  \<open>PStrOfDatetime t\<close> stands for the text \<^verbatim>\<open>str(t)\<close> of a \<^verbatim>\<open>datetime\<close> (or of
  \<^verbatim>\<open>None\<close>); its characters play no part in what follows.
\<close>

datatype exn =
    NoResultFound
  | MultipleResultsFound
  | IntegrityError
  | DataError
  | AttributeError
  | TypeError
  | NameError
  | InternalServerError

text \<open>
  A response is a rendered template with its keyword arguments, a redirect to an endpoint
  with its arguments, or a JSON body. The messages passed to \<^verbatim>\<open>flash\<close> during the
  request come last.
\<close>

datatype response =
    Render string "(string \<times> pyval) list" "string list"
  | Redirect string "(string \<times> pyval) list" "string list"
  | Json pyval

definition http_status :: "exn + response \<Rightarrow> nat" where
  "http_status r =
     (case r of
        Inl e \<Rightarrow> 500
      | Inr (Render t kw fl) \<Rightarrow> 200
      | Inr (Redirect t kw fl) \<Rightarrow> 302
      | Inr (Json j) \<Rightarrow> 200)"

definition and_then :: "exn + 'a \<Rightarrow> ('a \<Rightarrow> exn + 'b) \<Rightarrow> exn + 'b" where
  "and_then r f = (case r of Inl e \<Rightarrow> Inl e | Inr x \<Rightarrow> f x)"

definition pystr :: "string option \<Rightarrow> pyval" where
  "pystr s = (case s of None \<Rightarrow> PNone | Some x \<Rightarrow> PStr x)"

subsection \<open>Models\<close>

record Genre =
  g_id :: int
  g_name :: "string option"

record Venue =
  v_id :: int
  v_details_id :: int
  v_name :: "string option"
  v_seeking_talent :: bool
  v_seeking_text :: "string option"

record Artist =
  a_id :: int
  a_details_id :: int
  a_name :: "string option"
  a_seeking_venue :: bool
  a_seeking_text :: "string option"

record Details =
  d_id :: int
  d_city :: "string option"
  d_state :: "string option"
  d_address :: "string option"
  d_phone :: "string option"
  d_website :: "string option"
  d_image_link :: "string option"
  d_facebook_link :: "string option"

record Show =
  s_id :: int
  s_artist_id :: int
  s_venue_id :: int
  s_upcoming :: bool
  s_start_time :: "int option"

text \<open>
  The association tables hold pairs \<open>(genre_id, artist_id)\<close> and \<open>(genre_id, venue_id)\<close>.
\<close>

record db =
  tGenre :: "Genre list"
  tDetails :: "Details list"
  tVenue :: "Venue list"
  tArtist :: "Artist list"
  tShow :: "Show list"
  t_artist_genres :: "(int \<times> int) list"
  t_venue_genres :: "(int \<times> int) list"

subsection \<open>Queries\<close>

text \<open>\<^verbatim>\<open>Query.one()\<close> and \<^verbatim>\<open>Query.one_or_none()\<close> on the rows a filter selected.\<close>

definition one :: "'a list \<Rightarrow> exn + 'a" where
  "one rows =
     (case rows of
        [] \<Rightarrow> Inl NoResultFound
      | [r] \<Rightarrow> Inr r
      | r # r' # rs \<Rightarrow> Inl MultipleResultsFound)"

definition one_or_none :: "'a list \<Rightarrow> exn + 'a option" where
  "one_or_none rows =
     (case rows of
        [] \<Rightarrow> Inr None
      | [r] \<Rightarrow> Inr (Some r)
      | r # r' # rs \<Rightarrow> Inl MultipleResultsFound)"

text \<open>The relationships \<^verbatim>\<open>Venue.shows\<close>, \<^verbatim>\<open>Artist.shows\<close>, \<^verbatim>\<open>Venue.genres\<close>
  and \<^verbatim>\<open>Artist.genres\<close>, the last two joined through the association tables.\<close>

definition venue_shows :: "db \<Rightarrow> Venue \<Rightarrow> Show list" where
  "venue_shows d venue = [s \<leftarrow> tShow d. s_venue_id s = v_id venue]"

definition artist_shows :: "db \<Rightarrow> Artist \<Rightarrow> Show list" where
  "artist_shows d artist = [s \<leftarrow> tShow d. s_artist_id s = a_id artist]"

definition venue_genres :: "db \<Rightarrow> Venue \<Rightarrow> Genre list" where
  "venue_genres d venue = [g \<leftarrow> tGenre d. (g_id g, v_id venue) \<in> set (t_venue_genres d)]"

definition artist_genres :: "db \<Rightarrow> Artist \<Rightarrow> Genre list" where
  "artist_genres d artist = [g \<leftarrow> tGenre d. (g_id g, a_id artist) \<in> set (t_artist_genres d)]"

subsection \<open>Strings: \<^verbatim>\<open>str.strip\<close> and \<^verbatim>\<open>ilike\<close>\<close>

text \<open>The characters below 256 that \<^verbatim>\<open>str.isspace\<close> accepts.\<close>

definition isspace :: "char \<Rightarrow> bool" where
  "isspace c = ((of_char c :: nat) \<in> {9, 10, 11, 12, 13, 28, 29, 30, 31, 32, 133, 160})"

definition strip :: "string \<Rightarrow> string" where
  "strip s = rev (dropWhile isspace (rev (dropWhile isspace s)))"

text \<open>
  \<^verbatim>\<open>ilike\<close> compares without regard to the case of letters; the model folds the
  letters \<open>A\<close> to \<open>Z\<close>.
\<close>

definition lower_char :: "char \<Rightarrow> char" where
  "lower_char c =
     (if 65 \<le> (of_char c :: nat) \<and> (of_char c :: nat) \<le> 90
      then char_of ((of_char c :: nat) + 32) else c)"

text \<open>
  SQL's \<^verbatim>\<open>LIKE\<close>, pattern first: \<^verbatim>\<open>%\<close> matches any run of characters, \<^verbatim>\<open>_\<close> any one
  character, a backslash makes the character after it literal, and any other character
  matches itself. A pattern that ends in a lone backslash is rejected by the database;
  \<open>like\<close> answers \<open>False\<close> there, and no pattern built below ends so.
\<close>

fun like :: "string \<Rightarrow> string \<Rightarrow> bool" where
  "like [] s = (s = [])"
| "like (p # ps) s =
     (if p = CHR ''%'' then (\<exists>t \<in> set (suffixes s). like ps t)
      else if p = CHR ''_'' then (case s of [] \<Rightarrow> False | c # cs \<Rightarrow> like ps cs)
      else if p = CHR 0x5C then
        (case ps of
           [] \<Rightarrow> False
         | q # qs \<Rightarrow> (case s of [] \<Rightarrow> False | c # cs \<Rightarrow> c = q \<and> like qs cs))
      else (case s of [] \<Rightarrow> False | c # cs \<Rightarrow> c = p \<and> like ps cs))"

text \<open>A NULL column matches no pattern.\<close>

definition ilike :: "string option \<Rightarrow> string \<Rightarrow> bool" where
  "ilike col pattern =
     (case col of
        None \<Rightarrow> False
      | Some s \<Rightarrow> like (map lower_char pattern) (map lower_char s))"

subsection \<open>Search\<close>

text \<open>\<^verbatim>\<open>request.form.get('search_term', '')\<close>: the form is a map from field names.\<close>

definition search_venues :: "(string \<rightharpoonup> string) \<Rightarrow> db \<Rightarrow> exn + response" where
  "search_venues form d =
     (let search = strip (case form ''search_term'' of None \<Rightarrow> '''' | Some s \<Rightarrow> s);
          filterTerm = (\<lambda>venue. ilike (v_name venue) (''%'' @ search @ ''%''));
          venues = filter filterTerm (tVenue d);
          count = int (length venues);
          venueData =
            map (\<lambda>venue. PDict [(''id'', PInt (v_id venue)), (''name'', pystr (v_name venue))])
              venues;
          response = PDict [(''count'', PInt count), (''data'', PList venueData)]
      in Inr (Render ''pages/search_venues.html''
                [(''results'', response), (''search_term'', PStr search)] []))"

definition search_artists :: "(string \<rightharpoonup> string) \<Rightarrow> db \<Rightarrow> exn + response" where
  "search_artists form d =
     (let search = strip (case form ''search_term'' of None \<Rightarrow> '''' | Some s \<Rightarrow> s);
          filterTerm = (\<lambda>artist. ilike (a_name artist) (''%'' @ search @ ''%''));
          artists = filter filterTerm (tArtist d);
          count = int (length artists);
          artistData =
            map (\<lambda>artist. PDict [(''id'', PInt (a_id artist)), (''name'', pystr (a_name artist))])
              artists;
          response = PDict [(''count'', PInt count), (''data'', PList artistData)]
      in Inr (Render ''pages/search_artists.html''
                [(''results'', response), (''search_term'', PStr search)] []))"

text \<open>The characters \<^verbatim>\<open>LIKE\<close> does not read literally.\<close>

definition special :: "char \<Rightarrow> bool" where
  "special c = (c = CHR ''%'' \<or> c = CHR ''_'' \<or> c = CHR 0x5C)"

subsection \<open>Listings\<close>

text \<open>
  \<^verbatim>\<open>venues()\<close>. The Python \<^verbatim>\<open>set\<close> of places is a list without duplicates;
  \<^verbatim>\<open>list(statesAndCities)\<close> may give the places in any order, and nothing below
  depends on the order the model gives them in.
\<close>

fun places_loop ::
  "db \<Rightarrow> Venue list \<Rightarrow> (string option \<times> string option) list
     \<Rightarrow> exn + (string option \<times> string option) list" where
  "places_loop d [] statesAndCities = Inr statesAndCities"
| "places_loop d (venue # rest) statesAndCities =
     (case one [x \<leftarrow> tDetails d. d_id x = v_details_id venue] of
        Inl e \<Rightarrow> Inl e
      | Inr detail \<Rightarrow>
          places_loop d rest (List.insert (d_city detail, d_state detail) statesAndCities))"

fun venues_at ::
  "db \<Rightarrow> string option \<times> string option \<Rightarrow> Venue list \<Rightarrow> pyval list
     \<Rightarrow> exn + pyval list" where
  "venues_at d place [] listOfVenues = Inr listOfVenues"
| "venues_at d place (venue # rest) listOfVenues =
     (case one [x \<leftarrow> tDetails d. d_id x = v_details_id venue] of
        Inl e \<Rightarrow> Inl e
      | Inr detail \<Rightarrow>
          venues_at d place rest
            (if d_city detail = fst place \<and> d_state detail = snd place
             then listOfVenues @
                    [PDict [(''id'', PInt (v_id venue)), (''name'', pystr (v_name venue))]]
             else listOfVenues))"

fun areas_loop ::
  "db \<Rightarrow> (string option \<times> string option) list \<Rightarrow> pyval list \<Rightarrow> exn + pyval list" where
  "areas_loop d [] venueData = Inr venueData"
| "areas_loop d (place # rest) venueData =
     (case venues_at d place (tVenue d) [] of
        Inl e \<Rightarrow> Inl e
      | Inr listOfVenues \<Rightarrow>
          areas_loop d rest
            (venueData @
               [PDict [(''city'', pystr (fst place)), (''state'', pystr (snd place)),
                       (''venues'', PList listOfVenues)]]))"

definition venues :: "db \<Rightarrow> exn + response" where
  "venues d =
     and_then (places_loop d (tVenue d) []) (\<lambda>statesAndCities.
     and_then (areas_loop d statesAndCities []) (\<lambda>venueData.
       Inr (Render ''pages/venues.html'' [(''areas'', PList venueData)] [])))"

definition artists :: "db \<Rightarrow> exn + response" where
  "artists d =
     (let artistData =
            map (\<lambda>artist. PDict [(''id'', PInt (a_id artist)), (''name'', pystr (a_name artist))])
              (tArtist d)
      in Inr (Render ''pages/artists.html'' [(''artists'', PList artistData)] []))"

fun shows_loop :: "db \<Rightarrow> Show list \<Rightarrow> pyval list \<Rightarrow> exn + pyval list" where
  "shows_loop d [] showData = Inr showData"
| "shows_loop d (shw # rest) showData =
     (case one [a \<leftarrow> tArtist d. a_id a = s_artist_id shw] of
        Inl e \<Rightarrow> Inl e
      | Inr artist \<Rightarrow>
     (case one [v \<leftarrow> tVenue d. v_id v = s_venue_id shw] of
        Inl e \<Rightarrow> Inl e
      | Inr venue \<Rightarrow>
     (case one [x \<leftarrow> tDetails d. d_id x = a_details_id artist] of
        Inl e \<Rightarrow> Inl e
      | Inr detail \<Rightarrow>
          shows_loop d rest
            (showData @
               [PDict [(''artist_image_link'', pystr (d_image_link detail)),
                       (''start_time'', PStrOfDatetime (s_start_time shw)),
                       (''artist_id'', PInt (s_artist_id shw)),
                       (''artist_name'', pystr (a_name artist)),
                       (''venue_id'', PInt (s_venue_id shw)),
                       (''venue_name'', pystr (v_name venue))]]))))"

text \<open>\<^verbatim>\<open>shows()\<close>; the name \<open>shows\<close> is taken by Isar.\<close>

definition shows_listing :: "db \<Rightarrow> exn + response" where
  "shows_listing d =
     and_then (shows_loop d (tShow d) []) (\<lambda>showData.
       Inr (Render ''pages/shows.html'' [(''shows'', PList showData)] []))"

subsection \<open>Detail pages\<close>

text \<open>
  The loop over \<^verbatim>\<open>venue.shows\<close>: the state is the two lists and the two counters, in
  the order \<open>(showsUpcoming, showsPast, numUpcoming, numPast)\<close>.
\<close>

fun venue_shows_loop ::
  "db \<Rightarrow> Show list \<Rightarrow> pyval list \<times> pyval list \<times> int \<times> int
     \<Rightarrow> exn + (pyval list \<times> pyval list \<times> int \<times> int)" where
  "venue_shows_loop d [] st = Inr st"
| "venue_shows_loop d (shw # rest) (showsUpcoming, showsPast, numUpcoming, numPast) =
     (case one [a \<leftarrow> tArtist d. a_id a = s_artist_id shw] of
        Inl e \<Rightarrow> Inl e
      | Inr artist \<Rightarrow>
     (case one [x \<leftarrow> tDetails d. d_id x = a_details_id artist] of
        Inl e \<Rightarrow> Inl e
      | Inr artistDetail \<Rightarrow>
          (let entry = PDict [(''artist_image_link'', pystr (d_image_link artistDetail)),
                              (''artist_id'', PInt (a_id artist)),
                              (''artist_name'', pystr (a_name artist)),
                              (''start_time'', PStrOfDatetime (s_start_time shw))]
           in if s_upcoming shw
              then venue_shows_loop d rest
                     (showsUpcoming @ [entry], showsPast, numUpcoming + 1, numPast)
              else venue_shows_loop d rest
                     (showsUpcoming, showsPast @ [entry], numUpcoming, numPast + 1))))"

definition show_venue :: "db \<Rightarrow> int \<Rightarrow> exn + response" where
  "show_venue d venue_id =
     and_then (one_or_none [v \<leftarrow> tVenue d. v_id v = venue_id]) (\<lambda>found.
       case found of
         Some venue \<Rightarrow>
           and_then (one [x \<leftarrow> tDetails d. d_id x = v_details_id venue]) (\<lambda>detail.
           and_then (venue_shows_loop d (venue_shows d venue) ([], [], 0, 0))
             (\<lambda>(showsUpcoming, showsPast, numUpcoming, numPast).
               let genresList = map (\<lambda>genre. pystr (g_name genre)) (venue_genres d venue);
                   venueData =
                     [(''id'', PInt venue_id),
                      (''name'', pystr (v_name venue)),
                      (''genres'', PList genresList),
                      (''state'', pystr (d_state detail)),
                      (''city'', pystr (d_city detail)),
                      (''address'', pystr (d_address detail)),
                      (''phone'', pystr (d_phone detail)),
                      (''website'', pystr (d_website detail)),
                      (''facebook_link'', pystr (d_facebook_link detail)),
                      (''seeking_talent'', PBool (v_seeking_talent venue)),
                      (''seeking_description'', pystr (v_seeking_text venue)),
                      (''past_shows'', PList showsPast),
                      (''past_shows_count'', PInt numPast),
                      (''upcoming_shows'', PList showsUpcoming),
                      (''upcoming_shows_count'', PInt numUpcoming),
                      (''image_link'', pystr (d_image_link detail))]
               in Inr (Render ''pages/show_venue.html'' [(''venue'', PDict venueData)] [])))
       | None \<Rightarrow>
           (let errorMessage = PStr ''ID Error: Not Found!'';
                nullMessage = PStr '''';
                venueData =
                  [(''id'', errorMessage),
                   (''name'', nullMessage),
                   (''genres'', nullMessage),
                   (''state'', nullMessage),
                   (''city'', nullMessage),
                   (''address'', nullMessage),
                   (''phone'', nullMessage),
                   (''website'', nullMessage),
                   (''facebook_link'', nullMessage),
                   (''seeking_talent'', nullMessage),
                   (''seeking_description'', nullMessage),
                   (''past_shows'', nullMessage),
                   (''past_shows_count'', nullMessage),
                   (''upcoming_shows'', nullMessage),
                   (''upcoming_shows_count'', nullMessage),
                   (''image_link'', nullMessage)]
            in Inr (Render ''pages/show_venue.html'' [(''venue'', PDict venueData)] [])))"

text \<open>
  The loop over \<^verbatim>\<open>artist.shows\<close>. \<^verbatim>\<open>show.venue\<close> is the venue the foreign key
  \<^verbatim>\<open>show.venue_id\<close> names, the row the loop has just read.
\<close>

fun artist_shows_loop ::
  "db \<Rightarrow> Show list \<Rightarrow> pyval list \<times> pyval list \<times> int \<times> int
     \<Rightarrow> exn + (pyval list \<times> pyval list \<times> int \<times> int)" where
  "artist_shows_loop d [] st = Inr st"
| "artist_shows_loop d (shw # rest) (showsUpcoming, showsPast, numUpcoming, numPast) =
     (case one [v \<leftarrow> tVenue d. v_id v = s_venue_id shw] of
        Inl e \<Rightarrow> Inl e
      | Inr venue \<Rightarrow>
     (case one [x \<leftarrow> tDetails d. d_id x = v_details_id venue] of
        Inl e \<Rightarrow> Inl e
      | Inr venueDetails \<Rightarrow>
          (let entry = PDict [(''venue_image_link'', pystr (d_image_link venueDetails)),
                              (''venue_id'', PInt (s_venue_id shw)),
                              (''venue_name'', pystr (v_name venue)),
                              (''start_time'', PStrOfDatetime (s_start_time shw))]
           in if s_upcoming shw
              then artist_shows_loop d rest
                     (showsUpcoming @ [entry], showsPast, numUpcoming + 1, numPast)
              else artist_shows_loop d rest
                     (showsUpcoming, showsPast @ [entry], numUpcoming, numPast + 1))))"

definition show_artist :: "db \<Rightarrow> int \<Rightarrow> exn + response" where
  "show_artist d artist_id =
     and_then (one_or_none [a \<leftarrow> tArtist d. a_id a = artist_id]) (\<lambda>found.
       case found of
         Some artist \<Rightarrow>
           and_then (one [x \<leftarrow> tDetails d. d_id x = a_details_id artist]) (\<lambda>detail.
           and_then (artist_shows_loop d (artist_shows d artist) ([], [], 0, 0))
             (\<lambda>(showsUpcoming, showsPast, numUpcoming, numPast).
               let genresList = map (\<lambda>genre. pystr (g_name genre)) (artist_genres d artist);
                   artistData =
                     [(''id'', PInt artist_id),
                      (''name'', pystr (a_name artist)),
                      (''genres'', PList genresList),
                      (''state'', pystr (d_state detail)),
                      (''city'', pystr (d_city detail)),
                      (''phone'', pystr (d_phone detail)),
                      (''website'', pystr (d_website detail)),
                      (''facebook_link'', pystr (d_facebook_link detail)),
                      (''seeking_venue'', PBool (a_seeking_venue artist)),
                      (''seeking_description'', pystr (a_seeking_text artist)),
                      (''past_shows'', PList showsPast),
                      (''past_shows_count'', PInt numPast),
                      (''upcoming_shows'', PList showsUpcoming),
                      (''upcoming_shows_count'', PInt numUpcoming),
                      (''image_link'', pystr (d_image_link detail))]
               in Inr (Render ''pages/show_artist.html'' [(''artist'', PDict artistData)] [])))
       | None \<Rightarrow>
           (let errorMessage = PStr ''ID Error: Not Found!'';
                nullMessage = PStr '''';
                artistData =
                  [(''id'', errorMessage),
                   (''name'', nullMessage),
                   (''genres'', nullMessage),
                   (''state'', nullMessage),
                   (''city'', nullMessage),
                   (''phone'', nullMessage),
                   (''website'', nullMessage),
                   (''facebook_link'', nullMessage),
                   (''seeking_venue'', nullMessage),
                   (''seeking_description'', nullMessage),
                   (''past_shows'', nullMessage),
                   (''past_shows_count'', nullMessage),
                   (''upcoming_shows'', nullMessage),
                   (''upcoming_shows_count'', nullMessage),
                   (''image_link'', nullMessage)]
            in Inr (Render ''pages/show_artist.html'' [(''artist'', PDict artistData)] [])))"

subsection \<open>Forms and names from \<^verbatim>\<open>forms.py\<close>\<close>

text \<open>
  Modelled from the spec: \<^verbatim>\<open>forms.py\<close>, which declares \<^verbatim>\<open>VenueForm\<close>,
  \<^verbatim>\<open>ArtistForm\<close> and \<^verbatim>\<open>ShowForm\<close>, is not among the sources. The spec's form layer
  "extracts submitted field values (strings trimmed, list of selected genres)": a form is
  the record of the \<^verbatim>\<open>.data\<close> of its fields, a text field being \<open>None\<close> when the
  submission carries no value for it, and \<^verbatim>\<open>start_time\<close> being \<open>None\<close> when no
  \<^verbatim>\<open>datetime\<close> could be read. \<^verbatim>\<open>request.form['name']\<close> is the \<^verbatim>\<open>name\<close> field as
  submitted.
\<close>

record VenueForm =
  vf_genres :: "string list"
  vf_name :: "string option"
  vf_city :: "string option"
  vf_state :: "string option"
  vf_address :: "string option"
  vf_phone :: "string option"
  vf_facebook_link :: "string option"

record ArtistForm =
  af_genres :: "string list"
  af_name :: "string option"
  af_city :: "string option"
  af_state :: "string option"
  af_phone :: "string option"
  af_facebook_link :: "string option"

record ShowForm =
  sf_venue_id :: "string option"
  sf_artist_id :: "string option"
  sf_start_time :: "int option"

text \<open>
  \<^verbatim>\<open>app.py\<close> uses the names \<^verbatim>\<open>datetime\<close> and \<^verbatim>\<open>jsonify\<close> and imports neither;
  only \<^verbatim>\<open>from forms import *\<close> can bind them. Which of them it binds is a parameter of
  the handlers that use them; a name that is not bound raises \<^verbatim>\<open>NameError\<close>.
\<close>

record forms_names =
  datetime_bound :: bool
  jsonify_bound :: bool

text \<open>\<^verbatim>\<open>field.data.strip()\<close>: \<^verbatim>\<open>None\<close> has no \<^verbatim>\<open>strip\<close>.\<close>

definition strip_data :: "string option \<Rightarrow> exn + string" where
  "strip_data field =
     (case field of None \<Rightarrow> Inl AttributeError | Some s \<Rightarrow> Inr (strip s))"

subsection \<open>What the database enforces on a write\<close>

text \<open>A new primary key: one more than the largest in the table.\<close>

definition fresh_id :: "int list \<Rightarrow> int" where
  "fresh_id ids = fold max ids 0 + 1"

text \<open>The declared lengths of the \<^verbatim>\<open>Details\<close> columns.\<close>

definition fits :: "nat \<Rightarrow> string option \<Rightarrow> bool" where
  "fits n col = (case col of None \<Rightarrow> True | Some s \<Rightarrow> length s \<le> n)"

definition details_fit :: "Details \<Rightarrow> bool" where
  "details_fit x =
     (fits 120 (d_city x) \<and> fits 120 (d_state x) \<and> fits 120 (d_phone x) \<and>
      fits 500 (d_image_link x) \<and> fits 120 (d_facebook_link x))"

text \<open>
  A text value sent where an \<^verbatim>\<open>Integer\<close> column is compared or stored: the database
  reads an optional sign and decimal digits, with blanks around them, within 32 bits.
\<close>

definition digit_of :: "char \<Rightarrow> nat option" where
  "digit_of c =
     (if 48 \<le> (of_char c :: nat) \<and> (of_char c :: nat) \<le> 57
      then Some ((of_char c :: nat) - 48) else None)"

fun digits_value :: "string \<Rightarrow> nat \<Rightarrow> nat option" where
  "digits_value [] acc = Some acc"
| "digits_value (c # cs) acc =
     (case digit_of c of None \<Rightarrow> None | Some k \<Rightarrow> digits_value cs (10 * acc + k))"

definition sql_blank :: "char \<Rightarrow> bool" where
  "sql_blank c = ((of_char c :: nat) \<in> {9, 10, 11, 12, 13, 32})"

definition sql_int :: "string \<Rightarrow> exn + int" where
  "sql_int s =
     (let t = rev (dropWhile sql_blank (rev (dropWhile sql_blank s)));
          parsed =
            (case t of
               [] \<Rightarrow> None
             | c # cs \<Rightarrow>
                 if c = CHR ''-'' then
                   (if cs = [] then None else map_option (\<lambda>n. - int n) (digits_value cs 0))
                 else if c = CHR ''+'' then
                   (if cs = [] then None else map_option int (digits_value cs 0))
                 else map_option int (digits_value t 0))
      in case parsed of
           None \<Rightarrow> Inl DataError
         | Some n \<Rightarrow> if - 2147483648 \<le> n \<and> n \<le> 2147483647 then Inr n else Inl DataError)"

text \<open>
  The rows of an association table may not repeat. A relationship list that names one
  genre twice makes the session insert one pair twice, and the insert raises.
\<close>

definition pairs_insertable :: "(int \<times> int) list \<Rightarrow> (int \<times> int) list \<Rightarrow> bool" where
  "pairs_insertable new_rows table = (distinct new_rows \<and> set new_rows \<inter> set table = {})"

subsection \<open>Creating a venue or an artist\<close>

text \<open>\<^verbatim>\<open>for genre in genres: x.genres.append(Genre.query.filter_by(name=genre).one())\<close>\<close>

fun genres_loop :: "db \<Rightarrow> string list \<Rightarrow> Genre list \<Rightarrow> exn + Genre list" where
  "genres_loop d [] collected = Inr collected"
| "genres_loop d (genre # rest) collected =
     (case one [g \<leftarrow> tGenre d. g_name g = Some genre] of
        Inl e \<Rightarrow> Inl e
      | Inr g \<Rightarrow> genres_loop d rest (collected @ [g]))"

text \<open>
  The \<^verbatim>\<open>try\<close> block of \<^verbatim>\<open>create_venue_submission\<close>. It commits twice: the
  \<^verbatim>\<open>Details\<close> row first, the venue and its genres afterwards. The result is the database
  as of the last commit that succeeded, with the exception if one was raised; the
  \<^verbatim>\<open>rollback\<close> of the \<^verbatim>\<open>except\<close> clause undoes what was written since that commit.
\<close>

definition create_venue_try ::
  "db \<Rightarrow> string list \<Rightarrow> string \<Rightarrow> string \<Rightarrow> string \<Rightarrow> string \<Rightarrow> string \<Rightarrow> string
     \<Rightarrow> db \<times> (exn + unit)" where
  "create_venue_try d genres name city state address phone facebook_link =
     (let newDetail =
            \<lparr>d_id = fresh_id (map d_id (tDetails d)), d_city = Some city,
             d_state = Some state, d_address = Some address, d_phone = Some phone,
             d_website = None, d_image_link = None, d_facebook_link = Some facebook_link\<rparr>
      in if \<not> details_fit newDetail then (d, Inl DataError)
         else
           (let d1 = d\<lparr>tDetails := tDetails d @ [newDetail]\<rparr>
            in case and_then (one [x \<leftarrow> tDetails d1. d_facebook_link x = Some facebook_link])
                      (\<lambda>detail.
                    and_then (genres_loop d1 genres []) (\<lambda>collected.
                      let newVenue =
                            \<lparr>v_id = fresh_id (map v_id (tVenue d1)), v_details_id = d_id detail,
                             v_name = Some name, v_seeking_talent = False,
                             v_seeking_text = None\<rparr>;
                          new_rows = map (\<lambda>g. (g_id g, v_id newVenue)) collected
                      in if pairs_insertable new_rows (t_venue_genres d1)
                         then Inr (d1\<lparr>tVenue := tVenue d1 @ [newVenue],
                                      t_venue_genres := t_venue_genres d1 @ new_rows\<rparr>)
                         else Inl IntegrityError)) of
                 Inl e \<Rightarrow> (d1, Inl e)
               | Inr d2 \<Rightarrow> (d2, Inr ())))"

definition create_venue_submission :: "db \<Rightarrow> VenueForm \<Rightarrow> db \<times> (exn + response)" where
  "create_venue_submission d form =
     (let genres = vf_genres form
      in case strip_data (vf_name form) of Inl e \<Rightarrow> (d, Inl e) | Inr name \<Rightarrow>
         case strip_data (vf_city form) of Inl e \<Rightarrow> (d, Inl e) | Inr city \<Rightarrow>
         case strip_data (vf_state form) of Inl e \<Rightarrow> (d, Inl e) | Inr state \<Rightarrow>
         case strip_data (vf_address form) of Inl e \<Rightarrow> (d, Inl e) | Inr address \<Rightarrow>
         case strip_data (vf_phone form) of Inl e \<Rightarrow> (d, Inl e) | Inr phone \<Rightarrow>
         case strip_data (vf_facebook_link form) of Inl e \<Rightarrow> (d, Inl e) | Inr facebook_link \<Rightarrow>
         (case create_venue_try d genres name city state address phone facebook_link of
            (d', Inl e) \<Rightarrow>
              (d', Inr (Redirect ''create_venue_submission'' []
                          [''An error occurred. Venue '' @ name @ '' could not be listed.'']))
          | (d', Inr u) \<Rightarrow>
              (d', Inr (Render ''pages/home.html'' []
                          [''Venue '' @ (case vf_name form of None \<Rightarrow> '''' | Some raw \<Rightarrow> raw)
                             @ '' was successfully listed!'']))))"

definition create_artist_try ::
  "db \<Rightarrow> string list \<Rightarrow> string \<Rightarrow> string \<Rightarrow> string \<Rightarrow> string \<Rightarrow> string
     \<Rightarrow> db \<times> (exn + unit)" where
  "create_artist_try d genres name city state phone facebook_link =
     (let newDetail =
            \<lparr>d_id = fresh_id (map d_id (tDetails d)), d_city = Some city,
             d_state = Some state, d_address = None, d_phone = Some phone,
             d_website = None, d_image_link = None, d_facebook_link = Some facebook_link\<rparr>
      in if \<not> details_fit newDetail then (d, Inl DataError)
         else
           (let d1 = d\<lparr>tDetails := tDetails d @ [newDetail]\<rparr>
            in case and_then (one [x \<leftarrow> tDetails d1. d_facebook_link x = Some facebook_link])
                      (\<lambda>detail.
                    and_then (genres_loop d1 genres []) (\<lambda>collected.
                      let newArtist =
                            \<lparr>a_id = fresh_id (map a_id (tArtist d1)), a_details_id = d_id detail,
                             a_name = Some name, a_seeking_venue = False,
                             a_seeking_text = None\<rparr>;
                          new_rows = map (\<lambda>g. (g_id g, a_id newArtist)) collected
                      in if pairs_insertable new_rows (t_artist_genres d1)
                         then Inr (d1\<lparr>tArtist := tArtist d1 @ [newArtist],
                                      t_artist_genres := t_artist_genres d1 @ new_rows\<rparr>)
                         else Inl IntegrityError)) of
                 Inl e \<Rightarrow> (d1, Inl e)
               | Inr d2 \<Rightarrow> (d2, Inr ())))"

definition create_artist_submission :: "db \<Rightarrow> ArtistForm \<Rightarrow> db \<times> (exn + response)" where
  "create_artist_submission d form =
     (let genres = af_genres form
      in case strip_data (af_name form) of Inl e \<Rightarrow> (d, Inl e) | Inr name \<Rightarrow>
         case strip_data (af_city form) of Inl e \<Rightarrow> (d, Inl e) | Inr city \<Rightarrow>
         case strip_data (af_state form) of Inl e \<Rightarrow> (d, Inl e) | Inr state \<Rightarrow>
         case strip_data (af_phone form) of Inl e \<Rightarrow> (d, Inl e) | Inr phone \<Rightarrow>
         case strip_data (af_facebook_link form) of Inl e \<Rightarrow> (d, Inl e) | Inr facebook_link \<Rightarrow>
         (case create_artist_try d genres name city state phone facebook_link of
            (d', Inl e) \<Rightarrow>
              (d', Inr (Redirect ''create_artist_submission'' []
                          [''An error occurred. Artist '' @ name @ '' could not be listed.'']))
          | (d', Inr u) \<Rightarrow>
              (d', Inr (Render ''pages/home.html'' []
                          [''Artist '' @ (case af_name form of None \<Rightarrow> '''' | Some raw \<Rightarrow> raw)
                             @ '' was successfully listed!'']))))"

subsection \<open>Editing an artist or a venue\<close>

text \<open>
  On commit the session compares a relationship list with the list it loaded: a genre that
  is new to the list gets a row in the association table, once for each time the list
  names it, and a genre that left the list loses its row. \<open>sync_genres\<close> takes the
  association table, the id of the owner, the ids of the genres loaded and the ids now in
  the list.
\<close>

definition sync_genres ::
  "(int \<times> int) list \<Rightarrow> int \<Rightarrow> int list \<Rightarrow> int list \<Rightarrow> exn + (int \<times> int) list" where
  "sync_genres table owner original current =
     (let added = [g \<leftarrow> current. g \<notin> set original];
          deleted = [g \<leftarrow> original. g \<notin> set current];
          kept = [r \<leftarrow> table. \<not> (snd r = owner \<and> fst r \<in> set deleted)];
          new_rows = map (\<lambda>g. (g, owner)) added
      in if pairs_insertable new_rows kept then Inr (kept @ new_rows)
         else Inl IntegrityError)"

text \<open>
  The \<^verbatim>\<open>try\<close> block of \<^verbatim>\<open>edit_artist_submission\<close>, which commits once, at its end.
\<close>

definition edit_artist_try ::
  "db \<Rightarrow> Artist \<Rightarrow> Details \<Rightarrow> string list \<Rightarrow> string \<Rightarrow> string \<Rightarrow> string
     \<Rightarrow> string option \<Rightarrow> string \<Rightarrow> exn + db" where
  "edit_artist_try d artist detail genres name city state phone facebook_link =
     (let artist' = artist\<lparr>a_name := Some name\<rparr>;
          detail' = detail\<lparr>d_city := Some city, d_state := Some state, d_phone := phone,
                           d_facebook_link := Some facebook_link\<rparr>
      in and_then (genres_loop d genres []) (\<lambda>collected.
         and_then (sync_genres (t_artist_genres d) (a_id artist)
                     (map g_id (artist_genres d artist)) (map g_id collected)) (\<lambda>table.
           if \<not> details_fit detail' then Inl DataError
           else Inr (d\<lparr>tArtist := map (\<lambda>a. if a_id a = a_id artist then artist' else a)
                                     (tArtist d),
                        tDetails := map (\<lambda>x. if d_id x = d_id detail then detail' else x)
                                      (tDetails d),
                        t_artist_genres := table\<rparr>))))"

definition edit_artist_submission ::
  "db \<Rightarrow> int \<Rightarrow> ArtistForm \<Rightarrow> db \<times> (exn + response)" where
  "edit_artist_submission d artist_id form =
     (let genres = af_genres form
      in case strip_data (af_name form) of Inl e \<Rightarrow> (d, Inl e) | Inr name \<Rightarrow>
         case strip_data (af_city form) of Inl e \<Rightarrow> (d, Inl e) | Inr city \<Rightarrow>
         case strip_data (af_state form) of Inl e \<Rightarrow> (d, Inl e) | Inr state \<Rightarrow>
         let phone = af_phone form
         in case strip_data (af_facebook_link form) of Inl e \<Rightarrow> (d, Inl e) | Inr facebook_link \<Rightarrow>
         case one_or_none [a \<leftarrow> tArtist d. a_id a = artist_id] of
           Inl e \<Rightarrow> (d, Inl e)
         | Inr None \<Rightarrow> (d, Inl AttributeError)
         | Inr (Some artist) \<Rightarrow>
         case one [x \<leftarrow> tDetails d. d_id x = a_details_id artist] of
           Inl e \<Rightarrow> (d, Inl e)
         | Inr detail \<Rightarrow>
         (case edit_artist_try d artist detail genres name city state phone facebook_link of
            Inl e \<Rightarrow> (d, Inl InternalServerError)
          | Inr d' \<Rightarrow> (d', Inr (Redirect ''show_artist'' [(''artist_id'', PInt artist_id)] []))))"

definition edit_venue_try ::
  "db \<Rightarrow> Venue \<Rightarrow> Details \<Rightarrow> string list \<Rightarrow> string \<Rightarrow> string \<Rightarrow> string
     \<Rightarrow> string \<Rightarrow> string \<Rightarrow> exn + db" where
  "edit_venue_try d venue detail genres name city state phone facebook_link =
     (let venue' = venue\<lparr>v_name := Some name\<rparr>;
          detail' = detail\<lparr>d_city := Some city, d_state := Some state, d_phone := Some phone,
                           d_facebook_link := Some facebook_link\<rparr>
      in and_then (genres_loop d genres []) (\<lambda>collected.
         and_then (sync_genres (t_venue_genres d) (v_id venue)
                     (map g_id (venue_genres d venue)) (map g_id collected)) (\<lambda>table.
           if \<not> details_fit detail' then Inl DataError
           else Inr (d\<lparr>tVenue := map (\<lambda>v. if v_id v = v_id venue then venue' else v)
                                    (tVenue d),
                        tDetails := map (\<lambda>x. if d_id x = d_id detail then detail' else x)
                                      (tDetails d),
                        t_venue_genres := table\<rparr>))))"

definition edit_venue_submission ::
  "db \<Rightarrow> int \<Rightarrow> VenueForm \<Rightarrow> db \<times> (exn + response)" where
  "edit_venue_submission d venue_id form =
     (let genres = vf_genres form
      in case strip_data (vf_name form) of Inl e \<Rightarrow> (d, Inl e) | Inr name \<Rightarrow>
         case strip_data (vf_city form) of Inl e \<Rightarrow> (d, Inl e) | Inr city \<Rightarrow>
         case strip_data (vf_state form) of Inl e \<Rightarrow> (d, Inl e) | Inr state \<Rightarrow>
         case strip_data (vf_phone form) of Inl e \<Rightarrow> (d, Inl e) | Inr phone \<Rightarrow>
         case strip_data (vf_facebook_link form) of Inl e \<Rightarrow> (d, Inl e) | Inr facebook_link \<Rightarrow>
         case one_or_none [v \<leftarrow> tVenue d. v_id v = venue_id] of
           Inl e \<Rightarrow> (d, Inl e)
         | Inr None \<Rightarrow> (d, Inl AttributeError)
         | Inr (Some venue) \<Rightarrow>
         case one [x \<leftarrow> tDetails d. d_id x = v_details_id venue] of
           Inl e \<Rightarrow> (d, Inl e)
         | Inr detail \<Rightarrow>
         (case edit_venue_try d venue detail genres name city state phone facebook_link of
            Inl e \<Rightarrow> (d, Inl InternalServerError)
          | Inr d' \<Rightarrow> (d', Inr (Redirect ''show_venue'' [(''venue_id'', PInt venue_id)] []))))"

subsection \<open>Deleting a venue\<close>

text \<open>
  The route takes \<^verbatim>\<open>venue_id\<close> as text. Deleting a venue, the session sets
  \<^verbatim>\<open>venue_id\<close> of each of its shows to NULL, which \<^verbatim>\<open>nullable=False\<close> forbids, and
  deletes its rows of \<^verbatim>\<open>venue_genres\<close>. After the commit the handler calls
  \<^verbatim>\<open>jsonify\<close>.
\<close>

definition delete_venue :: "forms_names \<Rightarrow> db \<Rightarrow> string \<Rightarrow> db \<times> (exn + response)" where
  "delete_venue names d venue_id =
     (case sql_int venue_id of
        Inl e \<Rightarrow> (d, Inl e)
      | Inr vid \<Rightarrow>
     (case one [v \<leftarrow> tVenue d. v_id v = vid] of
        Inl e \<Rightarrow> (d, Inl e)
      | Inr venue \<Rightarrow>
          if venue_shows d venue \<noteq> [] then (d, Inl InternalServerError)
          else
            (let d' = d\<lparr>tVenue := [v \<leftarrow> tVenue d. v_id v \<noteq> v_id venue],
                         t_venue_genres := [r \<leftarrow> t_venue_genres d. snd r \<noteq> v_id venue]\<rparr>
             in if jsonify_bound names
                then (d', Inr (Json (PDict [(''deleted'', PBool True)])))
                else (d', Inl NameError))))"

subsection \<open>Creating a show\<close>

definition create_show_try :: "db \<Rightarrow> string \<Rightarrow> string \<Rightarrow> int \<Rightarrow> bool \<Rightarrow> exn + db" where
  "create_show_try d artistId venueId startTime upcomingShow =
     and_then (sql_int artistId) (\<lambda>aid.
     and_then (sql_int venueId) (\<lambda>vid.
       if aid \<in> set (map a_id (tArtist d)) \<and> vid \<in> set (map v_id (tVenue d))
       then Inr (d\<lparr>tShow := tShow d @
                     [\<lparr>s_id = fresh_id (map s_id (tShow d)), s_artist_id = aid,
                       s_venue_id = vid, s_upcoming = upcomingShow,
                       s_start_time = Some startTime\<rparr>]\<rparr>)
       else Inl IntegrityError))"

text \<open>\<open>now\<close> is what \<^verbatim>\<open>datetime.now()\<close> returns during the request.\<close>

definition create_show_submission ::
  "forms_names \<Rightarrow> int \<Rightarrow> db \<Rightarrow> ShowForm \<Rightarrow> db \<times> (exn + response)" where
  "create_show_submission names now d form =
     (case strip_data (sf_venue_id form) of Inl e \<Rightarrow> (d, Inl e) | Inr venueId \<Rightarrow>
      case strip_data (sf_artist_id form) of Inl e \<Rightarrow> (d, Inl e) | Inr artistId \<Rightarrow>
      if \<not> datetime_bound names then (d, Inl NameError)
      else
        (let time = now
         in case sf_start_time form of
              None \<Rightarrow> (d, Inl TypeError)
            | Some startTime \<Rightarrow>
                (let upcomingShow = (if startTime > time then True else False)
                 in case create_show_try d artistId venueId startTime upcomingShow of
                      Inl e \<Rightarrow>
                        (d, Inr (Redirect ''create_show_submission'' []
                                   [''An error occurred. Show could not be listed.'']))
                    | Inr d' \<Rightarrow>
                        (d', Inr (Render ''pages/home.html'' []
                                    [''Show was successfully listed!''])))))"

subsection \<open>The application as a whole\<close>

text \<open>
  The routes that read or write the database. The remaining routes (the home page, the
  empty forms and the prefilled edit forms) write nothing.
\<close>

datatype request =
    GetVenues
  | PostSearchVenues "string \<rightharpoonup> string"
  | GetVenue int
  | PostCreateVenue VenueForm
  | DeleteVenue string
  | GetArtists
  | PostSearchArtists "string \<rightharpoonup> string"
  | GetArtist int
  | PostEditArtist int ArtistForm
  | PostEditVenue int VenueForm
  | PostCreateArtist ArtistForm
  | GetShows
  | PostCreateShow ShowForm

definition handle ::
  "forms_names \<Rightarrow> int \<Rightarrow> db \<Rightarrow> request \<Rightarrow> db \<times> (exn + response)" where
  "handle names now d req =
     (case req of
        GetVenues \<Rightarrow> (d, venues d)
      | PostSearchVenues form \<Rightarrow> (d, search_venues form d)
      | GetVenue venue_id \<Rightarrow> (d, show_venue d venue_id)
      | PostCreateVenue form \<Rightarrow> create_venue_submission d form
      | DeleteVenue venue_id \<Rightarrow> delete_venue names d venue_id
      | GetArtists \<Rightarrow> (d, artists d)
      | PostSearchArtists form \<Rightarrow> (d, search_artists form d)
      | GetArtist artist_id \<Rightarrow> (d, show_artist d artist_id)
      | PostEditArtist artist_id form \<Rightarrow> edit_artist_submission d artist_id form
      | PostEditVenue venue_id form \<Rightarrow> edit_venue_submission d venue_id form
      | PostCreateArtist form \<Rightarrow> create_artist_submission d form
      | GetShows \<Rightarrow> (d, shows_listing d)
      | PostCreateShow form \<Rightarrow> create_show_submission names now d form)"

text \<open>A run of requests, each with the time of its arrival.\<close>

fun run :: "forms_names \<Rightarrow> db \<Rightarrow> (int \<times> request) list \<Rightarrow> db" where
  "run names d [] = d"
| "run names d ((now, req) # rest) = run names (fst (handle names now d req)) rest"

subsection \<open>The constraints of the schema\<close>

definition wf_db :: "db \<Rightarrow> bool" where
  "wf_db d =
     (distinct (map g_id (tGenre d)) \<and>
      distinct (map d_id (tDetails d)) \<and>
      distinct (map v_id (tVenue d)) \<and>
      distinct (map a_id (tArtist d)) \<and>
      distinct (map s_id (tShow d)) \<and>
      distinct (t_artist_genres d) \<and>
      distinct (t_venue_genres d) \<and>
      (\<forall>v \<in> set (tVenue d). v_details_id v \<in> set (map d_id (tDetails d))) \<and>
      (\<forall>a \<in> set (tArtist d). a_details_id a \<in> set (map d_id (tDetails d))) \<and>
      (\<forall>s \<in> set (tShow d).
          s_artist_id s \<in> set (map a_id (tArtist d)) \<and>
          s_venue_id s \<in> set (map v_id (tVenue d))) \<and>
      (\<forall>r \<in> set (t_artist_genres d).
          fst r \<in> set (map g_id (tGenre d)) \<and> snd r \<in> set (map a_id (tArtist d))) \<and>
      (\<forall>r \<in> set (t_venue_genres d).
          fst r \<in> set (map g_id (tGenre d)) \<and> snd r \<in> set (map v_id (tVenue d))) \<and>
      (\<forall>x \<in> set (tDetails d). details_fit x))"

subsection \<open>A database to compute on\<close>

text \<open>
  Two genres, two venues in different cities, one artist, and two shows of that artist at
  the first venue, one flagged upcoming and one not.
\<close>

definition example_db :: db where
  "example_db =
     \<lparr>tGenre = [\<lparr>g_id = 1, g_name = Some ''Jazz''\<rparr>, \<lparr>g_id = 2, g_name = Some ''Blues''\<rparr>],
      tDetails =
        [\<lparr>d_id = 1, d_city = Some ''San Francisco'', d_state = Some ''CA'',
          d_address = Some ''1015 Folsom Street'', d_phone = Some ''123-123-1234'',
          d_website = None, d_image_link = None, d_facebook_link = Some ''fb/dive''\<rparr>,
         \<lparr>d_id = 2, d_city = Some ''New York'', d_state = Some ''NY'',
          d_address = Some ''335 Delancey Street'', d_phone = Some ''914-003-1132'',
          d_website = None, d_image_link = None, d_facebook_link = Some ''fb/dueling''\<rparr>,
         \<lparr>d_id = 3, d_city = Some ''San Francisco'', d_state = Some ''CA'',
          d_address = None, d_phone = Some ''326-123-5000'',
          d_website = None, d_image_link = None, d_facebook_link = Some ''fb/guns''\<rparr>],
      tVenue =
        [\<lparr>v_id = 1, v_details_id = 1, v_name = Some ''The Dive Bar'', v_seeking_talent = False,
          v_seeking_text = None\<rparr>,
         \<lparr>v_id = 2, v_details_id = 2, v_name = Some ''Dueling Pianos'', v_seeking_talent = False,
          v_seeking_text = None\<rparr>],
      tArtist =
        [\<lparr>a_id = 1, a_details_id = 3, a_name = Some ''Guns N Petals'', a_seeking_venue = False,
          a_seeking_text = None\<rparr>],
      tShow =
        [\<lparr>s_id = 1, s_artist_id = 1, s_venue_id = 1, s_upcoming = True, s_start_time = Some 100\<rparr>,
         \<lparr>s_id = 2, s_artist_id = 1, s_venue_id = 1, s_upcoming = False, s_start_time = Some 5\<rparr>],
      t_artist_genres = [(1, 1)],
      t_venue_genres = [(1, 1), (2, 2)]\<rparr>"

text \<open>The same database with one more venue, whose \<^verbatim>\<open>name\<close> column is NULL.\<close>

definition unnamed_venue_db :: db where
  "unnamed_venue_db =
     example_db\<lparr>tVenue := tVenue example_db @
       [\<lparr>v_id = 3, v_details_id = 2, v_name = None, v_seeking_talent = False,
         v_seeking_text = None\<rparr>]\<rparr>"

subsection \<open>The search as the specification words it\<close>

text \<open>
  A name contains a term "as a substring under case-insensitive comparison" when the
  folded term is a run of consecutive characters of the folded name. A NULL name
  contains nothing.
\<close>

definition contains_ci :: "string \<Rightarrow> string option \<Rightarrow> bool" where
  "contains_ci term col =
     (case col of
        None \<Rightarrow> False
      | Some name \<Rightarrow> sublist (map lower_char term) (map lower_char name))"

definition venues_containing :: "string \<Rightarrow> db \<Rightarrow> Venue list" where
  "venues_containing term d = [v \<leftarrow> tVenue d. contains_ci term (v_name v)]"

definition artists_containing :: "string \<Rightarrow> db \<Rightarrow> Artist list" where
  "artists_containing term d = [a \<leftarrow> tArtist d. contains_ci term (a_name a)]"

text \<open>The response of a search that found the given rows.\<close>

definition venue_results :: "string \<Rightarrow> Venue list \<Rightarrow> exn + response" where
  "venue_results shown found =
     Inr (Render ''pages/search_venues.html''
            [(''results'',
              PDict [(''count'', PInt (int (length found))),
                     (''data'',
                      PList (map (\<lambda>v. PDict [(''id'', PInt (v_id v)),
                                               (''name'', pystr (v_name v))]) found))]),
             (''search_term'', PStr shown)] [])"

definition artist_results :: "string \<Rightarrow> Artist list \<Rightarrow> exn + response" where
  "artist_results shown found =
     Inr (Render ''pages/search_artists.html''
            [(''results'',
              PDict [(''count'', PInt (int (length found))),
                     (''data'',
                      PList (map (\<lambda>a. PDict [(''id'', PInt (a_id a)),
                                               (''name'', pystr (a_name a))]) found))]),
             (''search_term'', PStr shown)] [])"

subsection \<open>The listing of venues as the specification words it\<close>

text \<open>
  The place of a venue is the city and state of its \<^verbatim>\<open>Details\<close> row; a group of the
  listing is a place with the entries of the venues located there.
\<close>

definition venue_place :: "db \<Rightarrow> Venue \<Rightarrow> (string option \<times> string option) option" where
  "venue_place d v =
     (case one [x \<leftarrow> tDetails d. d_id x = v_details_id v] of
        Inl e \<Rightarrow> None
      | Inr x \<Rightarrow> Some (d_city x, d_state x))"

definition venue_entry :: "Venue \<Rightarrow> pyval" where
  "venue_entry v = PDict [(''id'', PInt (v_id v)), (''name'', pystr (v_name v))]"

definition area_group :: "db \<Rightarrow> string option \<times> string option \<Rightarrow> pyval" where
  "area_group d place =
     PDict [(''city'', pystr (fst place)), (''state'', pystr (snd place)),
            (''venues'', PList (map venue_entry [v \<leftarrow> tVenue d. venue_place d v = Some place]))]"

subsection \<open>Submissions to compute on\<close>

text \<open>A new venue whose only genre, \<open>Rock\<close>, is not in the \<^verbatim>\<open>Genre\<close> table.\<close>

definition rock_venue_form :: VenueForm where
  "rock_venue_form =
     \<lparr>vf_genres = [''Rock''], vf_name = Some ''Park Square'', vf_city = Some ''Boston'',
      vf_state = Some ''MA'', vf_address = Some ''34 Whiskey Moore Ave'',
      vf_phone = Some ''415-000-1234'', vf_facebook_link = Some ''fb/park''\<rparr>"

text \<open>
  An edit of artist 1 and an edit of venue 1 that change the genre to \<open>Blues\<close> and the
  phone number to the same text, which has a blank on either side.
\<close>

definition padded_artist_form :: ArtistForm where
  "padded_artist_form =
     \<lparr>af_genres = [''Blues''], af_name = Some ''Guns N Petals'',
      af_city = Some ''San Francisco'', af_state = Some ''CA'',
      af_phone = Some '' 326-123-5000 '', af_facebook_link = Some ''fb/guns''\<rparr>"

definition padded_venue_form :: VenueForm where
  "padded_venue_form =
     \<lparr>vf_genres = [''Blues''], vf_name = Some ''The Dive Bar'',
      vf_city = Some ''San Francisco'', vf_state = Some ''CA'',
      vf_address = Some ''1015 Folsom Street'',
      vf_phone = Some '' 326-123-5000 '', vf_facebook_link = Some ''fb/dive''\<rparr>"

text \<open>The star import binding both names, the case most favourable to the handlers.\<close>

definition both_names :: forms_names where
  "both_names = \<lparr>datetime_bound = True, jsonify_bound = True\<rparr>"

text \<open>A show of artist 1 at venue 2, starting at tick 500.\<close>

definition future_show_form :: ShowForm where
  "future_show_form =
     \<lparr>sf_venue_id = Some ''2'', sf_artist_id = Some ''1'', sf_start_time = Some 500\<rparr>"

text \<open>
  Requests that arrive after tick 500: a read of venue 2, an edit of venue 1, an attempt to
  delete venue 1, and one more show.
\<close>

definition later_requests :: "(int \<times> request) list" where
  "later_requests =
     [(600, GetVenue 2), (700, PostEditVenue 1 padded_venue_form), (800, DeleteVenue ''1''),
      (900, PostCreateShow future_show_form)]"

subsection \<open>When a venue form can be stored\<close>

text \<open>
  Every text field of the form is present, and the stripped values for the columns
  declared \<^verbatim>\<open>String(120)\<close> fit them.
\<close>

definition venue_form_storable :: "VenueForm \<Rightarrow> bool" where
  "venue_form_storable form =
     (vf_name form \<noteq> None \<and> vf_city form \<noteq> None \<and> vf_state form \<noteq> None \<and>
      vf_address form \<noteq> None \<and> vf_phone form \<noteq> None \<and> vf_facebook_link form \<noteq> None \<and>
      fits 120 (map_option strip (vf_city form)) \<and>
      fits 120 (map_option strip (vf_state form)) \<and>
      fits 120 (map_option strip (vf_phone form)) \<and>
      fits 120 (map_option strip (vf_facebook_link form)))"

section \<open>Properties\<close>

subsection \<open>Detail pages of ids that match nothing\<close>




subsection \<open>Search\<close>

text \<open>Folding letters leaves the special characters of \<^verbatim>\<open>LIKE\<close> alone.\<close>

lemma of_char_lower_char:
  "(of_char (lower_char c) :: nat) =
     (if 65 \<le> (of_char c :: nat) \<and> (of_char c :: nat) \<le> 90 then of_char c + 32 else of_char c)"
  by (simp add: lower_char_def)

lemma special_code: "special c \<longleftrightarrow> (of_char c :: nat) \<in> {37, 95, 92}"
proof -
  have "(of_char c :: nat) = of_char (CHR ''%'') \<longleftrightarrow> c = CHR ''%''"
       "(of_char c :: nat) = of_char (CHR ''_'') \<longleftrightarrow> c = CHR ''_''"
       "(of_char c :: nat) = of_char (CHR 0x5C) \<longleftrightarrow> c = CHR 0x5C"
    by (rule of_char_eq_iff)+
  then show ?thesis unfolding special_def by auto
qed

lemma special_lower_char: "special (lower_char c) \<longleftrightarrow> special c"
  unfolding special_code of_char_lower_char by auto

lemma like_literal:
  "\<forall>c \<in> set p. \<not> special c \<Longrightarrow> like (p @ r) s \<longleftrightarrow> (\<exists>t. s = p @ t \<and> like r t)"
  by (induction p arbitrary: s) (auto simp: special_def split: list.splits)

lemma like_contains:
  assumes "\<forall>c \<in> set p. \<not> special c"
  shows "like (''%'' @ p @ ''%'') s \<longleftrightarrow> sublist p s"
proof -
  have "like (''%'' @ p @ ''%'') s \<longleftrightarrow> (\<exists>t \<in> set (suffixes s). like (p @ ''%'') t)"
    by simp
  also have "\<dots> \<longleftrightarrow> (\<exists>t. suffix t s \<and> (\<exists>u. t = p @ u))"
    using like_literal [OF assms, of "''%''"] by auto
  also have "\<dots> \<longleftrightarrow> sublist p s"
    by (auto simp: suffix_def sublist_def)
  finally show ?thesis .
qed

lemma ilike_contains:
  assumes "\<forall>c \<in> set term. \<not> special c"
  shows "ilike col (''%'' @ term @ ''%'') \<longleftrightarrow> contains_ci term col"
proof -
  have "\<forall>c \<in> set (map lower_char term). \<not> special c"
    using assms by (simp add: special_lower_char)
  from like_contains [OF this] have
    "\<And>s. like (''%'' @ map lower_char term @ ''%'') s \<longleftrightarrow> sublist (map lower_char term) s" .
  moreover have "map lower_char (''%'' @ term @ ''%'') = ''%'' @ map lower_char term @ ''%''"
    by (simp add: lower_char_def)
  ultimately show ?thesis
    by (simp add: ilike_def contains_ci_def split: option.splits)
qed

lemma ilike_empty: "ilike col ''%%'' \<longleftrightarrow> col \<noteq> None"
  by (auto simp: ilike_def lower_char_def split: option.splits)

lemma search_venues_eq:
  "search_venues form d =
     venue_results (strip (case form ''search_term'' of None \<Rightarrow> '''' | Some s \<Rightarrow> s))
       [v \<leftarrow> tVenue d. ilike (v_name v)
           (''%'' @ strip (case form ''search_term'' of None \<Rightarrow> '''' | Some s \<Rightarrow> s) @ ''%'')]"
  by (simp add: search_venues_def venue_results_def Let_def)

lemma search_artists_eq:
  "search_artists form d =
     artist_results (strip (case form ''search_term'' of None \<Rightarrow> '''' | Some s \<Rightarrow> s))
       [a \<leftarrow> tArtist d. ilike (a_name a)
           (''%'' @ strip (case form ''search_term'' of None \<Rightarrow> '''' | Some s \<Rightarrow> s) @ ''%'')]"
  by (simp add: search_artists_def artist_results_def Let_def)

text \<open>
  C8, amended. The handlers strip the submitted term first. When the stripped term holds
  none of \<^verbatim>\<open>%\<close>, \<^verbatim>\<open>_\<close> and the backslash, the search renders exactly the rows
  whose name is not NULL and contains the stripped term, letters compared without regard
  to case and at any position, in table order, with their number as \<open>count\<close>; this
  holds for venues and for artists.
\<close>

theorem search_matches_stripped_literal_term:
  assumes "form ''search_term'' = Some term"
      and "\<forall>c \<in> set (strip term). \<not> special c"
  shows "search_venues form d = venue_results (strip term) (venues_containing (strip term) d) \<and>
         search_artists form d = artist_results (strip term) (artists_containing (strip term) d)"
  using assms ilike_contains [of "strip term"]
  by (simp add: search_venues_eq search_artists_eq venues_containing_def artists_containing_def)

theorem search_matches_stripped_literal_term_witness:
  "search_venues [''search_term'' \<mapsto> '' PIANO ''] example_db =
     venue_results ''PIANO''
       [\<lparr>v_id = 2, v_details_id = 2, v_name = Some ''Dueling Pianos'', v_seeking_talent = False,
         v_seeking_text = None\<rparr>] \<and>
   search_artists [''search_term'' \<mapsto> '' PIANO ''] example_db = artist_results ''PIANO'' []"
proof -
  have s: "strip '' PIANO '' = ''PIANO''"
    by (simp add: strip_def isspace_def)
  have h: "\<forall>c \<in> set (strip '' PIANO ''). \<not> special c"
    unfolding s by (simp add: special_def)
  have v: "venues_containing ''PIANO'' example_db =
      [\<lparr>v_id = 2, v_details_id = 2, v_name = Some ''Dueling Pianos'', v_seeking_talent = False,
         v_seeking_text = None\<rparr>]"
    by code_simp
  have a: "artists_containing ''PIANO'' example_db = []"
    by code_simp
  show ?thesis
    using search_matches_stripped_literal_term
      [of "[''search_term'' \<mapsto> '' PIANO '']" "'' PIANO ''" example_db] h
    by (simp add: s v a)
qed

text \<open>
  C8 as stated fails twice. The term \<open>d_e\<close> is contained in no venue name, yet the
  search returns "Dueling Pianos", since \<^verbatim>\<open>_\<close> stands for any character. The term
  \<open>petals\<close> followed by a blank is contained in no artist name, yet the search returns
  "Guns N Petals", since the blank is stripped.
\<close>

theorem search_wildcard_and_blank_counterexample:
  "venues_containing ''d_e'' example_db = [] \<and>
   search_venues [''search_term'' \<mapsto> ''d_e''] example_db =
     venue_results ''d_e''
       [\<lparr>v_id = 2, v_details_id = 2, v_name = Some ''Dueling Pianos'', v_seeking_talent = False,
         v_seeking_text = None\<rparr>] \<and>
   artists_containing ''petals '' example_db = [] \<and>
   search_artists [''search_term'' \<mapsto> ''petals ''] example_db =
     artist_results ''petals''
       [\<lparr>a_id = 1, a_details_id = 3, a_name = Some ''Guns N Petals'', a_seeking_venue = False,
         a_seeking_text = None\<rparr>]"
  by code_simp

text \<open>
  C10, amended. A search with the empty term (or with no \<^verbatim>\<open>search_term\<close> field)
  returns every row whose name is not NULL, and \<open>count\<close> is their number; it is the
  number of rows of the table when no name is NULL.
\<close>

theorem empty_search_matches_named_rows:
  assumes "form ''search_term'' = None \<or> form ''search_term'' = Some ''''"
  shows "search_venues form d = venue_results '''' [v \<leftarrow> tVenue d. v_name v \<noteq> None] \<and>
         search_artists form d = artist_results '''' [a \<leftarrow> tArtist d. a_name a \<noteq> None] \<and>
         ((\<forall>v \<in> set (tVenue d). v_name v \<noteq> None) \<longrightarrow>
            search_venues form d = venue_results '''' (tVenue d)) \<and>
         ((\<forall>a \<in> set (tArtist d). a_name a \<noteq> None) \<longrightarrow>
            search_artists form d = artist_results '''' (tArtist d))"
proof -
  have t: "strip (case form ''search_term'' of None \<Rightarrow> '''' | Some s \<Rightarrow> s) = ''''"
    using assms by (auto simp: strip_def)
  have v: "search_venues form d = venue_results '''' [v \<leftarrow> tVenue d. v_name v \<noteq> None]"
    by (simp add: search_venues_eq t ilike_empty)
  have a: "search_artists form d = artist_results '''' [a \<leftarrow> tArtist d. a_name a \<noteq> None]"
    by (simp add: search_artists_eq t ilike_empty)
  show ?thesis
    by (simp add: v a filter_id_conv)
qed

theorem empty_search_matches_named_rows_witness:
  "search_venues [''search_term'' \<mapsto> ''''] example_db = venue_results '''' (tVenue example_db) \<and>
   search_artists [''search_term'' \<mapsto> ''''] example_db = artist_results '''' (tArtist example_db)"
proof -
  have v: "\<forall>v \<in> set (tVenue example_db). v_name v \<noteq> None"
    by (simp add: example_db_def)
  have a: "\<forall>a \<in> set (tArtist example_db). a_name a \<noteq> None"
    by (simp add: example_db_def)
  show ?thesis
    using empty_search_matches_named_rows [of "[''search_term'' \<mapsto> '''']" example_db] v a
    by simp
qed

text \<open>
  C10 as stated fails on a table with a NULL name: of the three venues of
  \<open>unnamed_venue_db\<close> the empty search returns the two that have a name.
\<close>

theorem empty_search_null_name_counterexample:
  "length (tVenue unnamed_venue_db) = 3 \<and>
   search_venues [''search_term'' \<mapsto> ''''] unnamed_venue_db =
     venue_results '''' (tVenue example_db) \<and>
   length (tVenue example_db) = 2"
  by code_simp


subsection \<open>Rows found by their key\<close>

lemma filter_key_distinct:
  "distinct (map f xs) \<Longrightarrow> x \<in> set xs \<Longrightarrow> [y \<leftarrow> xs. f y = f x] = [x]"
proof (induction xs)
  case Nil
  then show ?case by simp
next
  case (Cons a xs)
  show ?case
  proof (cases "a = x")
    case True
    with Cons.prems have "f x \<notin> f ` set xs" by simp
    then have "\<And>y. y \<in> set xs \<Longrightarrow> f y \<noteq> f x" by (metis imageI)
    then have "[y \<leftarrow> xs. f y = f x] = []" by (simp add: filter_empty_conv)
    with True show ?thesis by simp
  next
    case False
    with Cons.prems have "x \<in> set xs" "f a \<noteq> f x" "distinct (map f xs)" by auto
    with Cons.IH show ?thesis by simp
  qed
qed

lemma one_by_key:
  assumes "distinct (map f xs)" and "k \<in> set (map f xs)"
  shows "\<exists>x \<in> set xs. f x = k \<and> one [y \<leftarrow> xs. f y = k] = Inr x"
proof -
  from assms(2) obtain x where x: "x \<in> set xs" "f x = k" by auto
  from filter_key_distinct [OF assms(1) x(1)] x(2)
  have "[y \<leftarrow> xs. f y = k] = [x]" by simp
  then show ?thesis using x by (auto simp: one_def)
qed

subsection \<open>The counters of a venue's page\<close>

lemma venue_shows_loop_counts:
  "venue_shows_loop d ss (u, p, nu, np) = Inr (u', p', nu', np') \<Longrightarrow>
     nu' = nu + int (length [s \<leftarrow> ss. s_upcoming s]) \<and>
     np' = np + int (length [s \<leftarrow> ss. \<not> s_upcoming s])"
proof (induction ss arbitrary: u p nu np)
  case Nil
  then show ?case by simp
next
  case (Cons s ss)
  from Cons.prems show ?case
    by (auto simp: Let_def split: sum.splits if_splits dest!: Cons.IH)
qed

lemma length_filter_split:
  "int (length [x \<leftarrow> xs. P x \<and> Q x]) + int (length [x \<leftarrow> xs. P x \<and> \<not> Q x]) =
     int (length [x \<leftarrow> xs. P x])"
  by (induction xs) auto

lemma venue_shows_loop_returns:
  assumes "wf_db d" and "set ss \<subseteq> set (tShow d)"
  shows "\<exists>r. venue_shows_loop d ss (u, p, nu, np) = Inr r"
  using assms(2)
proof (induction ss arbitrary: u p nu np)
  case Nil
  then show ?case by simp
next
  case (Cons s ss)
  from Cons.prems have s: "s \<in> set (tShow d)" and ss: "set ss \<subseteq> set (tShow d)" by auto
  from assms(1) s have "s_artist_id s \<in> set (map a_id (tArtist d))"
    and da: "distinct (map a_id (tArtist d))" and dd: "distinct (map d_id (tDetails d))"
    by (auto simp: wf_db_def)
  from one_by_key [OF da this(1)] obtain a where
    a: "a \<in> set (tArtist d)" "one [a \<leftarrow> tArtist d. a_id a = s_artist_id s] = Inr a" by auto
  from assms(1) a(1) have "a_details_id a \<in> set (map d_id (tDetails d))"
    by (auto simp: wf_db_def)
  from one_by_key [OF dd this] obtain x where
    x: "one [x \<leftarrow> tDetails d. d_id x = a_details_id a] = Inr x" by auto
  show ?case
    using Cons.IH [OF ss] by (simp add: a(2) x Let_def)
qed

text \<open>
  C4. In a database that meets the constraints of the schema, the page of a venue that
  exists is rendered, its \<open>upcoming_shows_count\<close> is the number of shows of the venue
  whose stored \<open>upcoming\<close> flag is true, its \<open>past_shows_count\<close> the number of those
  whose flag is false, and the two add up to the number of shows that reference the venue.
\<close>

theorem venue_page_counts_partition_shows:
  assumes "wf_db d" and "venue_id \<in> set (map v_id (tVenue d))"
  shows "\<exists>data. show_venue d venue_id =
                  Inr (Render ''pages/show_venue.html'' [(''venue'', PDict data)] []) \<and>
           map_of data ''upcoming_shows_count'' =
             Some (PInt (int (length [s \<leftarrow> tShow d. s_venue_id s = venue_id \<and> s_upcoming s]))) \<and>
           map_of data ''past_shows_count'' =
             Some (PInt (int (length [s \<leftarrow> tShow d. s_venue_id s = venue_id \<and> \<not> s_upcoming s]))) \<and>
           int (length [s \<leftarrow> tShow d. s_venue_id s = venue_id \<and> s_upcoming s]) +
           int (length [s \<leftarrow> tShow d. s_venue_id s = venue_id \<and> \<not> s_upcoming s]) =
             int (length [s \<leftarrow> tShow d. s_venue_id s = venue_id])"
proof -
  from assms have dv: "distinct (map v_id (tVenue d))" and dd: "distinct (map d_id (tDetails d))"
    by (auto simp: wf_db_def)
  from assms(2) obtain v where v: "v \<in> set (tVenue d)" "v_id v = venue_id" by auto
  from filter_key_distinct [OF dv v(1)] v(2)
  have found: "one_or_none [v \<leftarrow> tVenue d. v_id v = venue_id] = Inr (Some v)"
    by (simp add: one_or_none_def)
  from assms(1) v(1) have "v_details_id v \<in> set (map d_id (tDetails d))"
    by (auto simp: wf_db_def)
  from one_by_key [OF dd this] obtain x where
    x: "one [x \<leftarrow> tDetails d. d_id x = v_details_id v] = Inr x" by auto
  have sub: "set (venue_shows d v) \<subseteq> set (tShow d)"
    by (auto simp: venue_shows_def)
  from venue_shows_loop_returns [OF assms(1) sub] obtain u p nu np where
    loop: "venue_shows_loop d (venue_shows d v) ([], [], 0, 0) = Inr (u, p, nu, np)"
    by (metis prod_cases4)
  from venue_shows_loop_counts [OF loop] have
    nu: "nu = int (length [s \<leftarrow> tShow d. s_venue_id s = venue_id \<and> s_upcoming s])" and
    np: "np = int (length [s \<leftarrow> tShow d. s_venue_id s = venue_id \<and> \<not> s_upcoming s])"
    by (simp_all add: venue_shows_def v(2) conj_commute)
  have total: "int (length [s \<leftarrow> tShow d. s_venue_id s = venue_id \<and> s_upcoming s]) +
           int (length [s \<leftarrow> tShow d. s_venue_id s = venue_id \<and> \<not> s_upcoming s]) =
             int (length [s \<leftarrow> tShow d. s_venue_id s = venue_id])"
    by (rule length_filter_split)
  show ?thesis
    using total by (simp add: show_venue_def and_then_def found x loop nu np Let_def)
qed


theorem venue_page_counts_partition_shows_witness:
  "wf_db example_db \<and> 1 \<in> set (map v_id (tVenue example_db)) \<and>
   (\<exists>data. show_venue example_db 1 =
             Inr (Render ''pages/show_venue.html'' [(''venue'', PDict data)] []) \<and>
           map_of data ''upcoming_shows_count'' = Some (PInt 1) \<and>
           map_of data ''past_shows_count'' = Some (PInt 1)) \<and>
   int (length [s \<leftarrow> tShow example_db. s_venue_id s = 1]) = 2"
proof -
  have wf: "wf_db example_db"
    by (simp add: wf_db_def example_db_def details_fit_def fits_def)
  have v: "1 \<in> set (map v_id (tVenue example_db))"
    by (simp add: example_db_def)
  have u: "int (length [s \<leftarrow> tShow example_db. s_venue_id s = 1 \<and> s_upcoming s]) = 1"
    by (simp add: example_db_def)
  have p: "int (length [s \<leftarrow> tShow example_db. s_venue_id s = 1 \<and> \<not> s_upcoming s]) = 1"
    by (simp add: example_db_def)
  have t: "int (length [s \<leftarrow> tShow example_db. s_venue_id s = 1]) = 2"
    by (simp add: example_db_def)
  show ?thesis
    using venue_page_counts_partition_shows [OF wf v] wf v t unfolding u p by blast
qed


subsection \<open>The listing of venues\<close>

lemma venue_place_Some:
  assumes "wf_db d" and "v \<in> set (tVenue d)"
  shows "\<exists>x. one [x \<leftarrow> tDetails d. d_id x = v_details_id v] = Inr x \<and>
             venue_place d v = Some (d_city x, d_state x)"
proof -
  from assms have dd: "distinct (map d_id (tDetails d))"
    and k: "v_details_id v \<in> set (map d_id (tDetails d))"
    by (auto simp: wf_db_def)
  from one_by_key [OF dd k] obtain x where
    "one [x \<leftarrow> tDetails d. d_id x = v_details_id v] = Inr x" by auto
  then show ?thesis by (auto simp: venue_place_def)
qed

lemma places_loop_result:
  assumes "wf_db d"
  shows "set vs \<subseteq> set (tVenue d) \<Longrightarrow> distinct acc \<Longrightarrow>
         \<exists>ps. places_loop d vs acc = Inr ps \<and> distinct ps \<and>
              set ps = set acc \<union> {p. \<exists>v \<in> set vs. venue_place d v = Some p}"
proof (induction vs arbitrary: acc)
  case Nil
  then show ?case by simp
next
  case (Cons v vs)
  from Cons.prems have v: "v \<in> set (tVenue d)" and vs: "set vs \<subseteq> set (tVenue d)" by auto
  from venue_place_Some [OF assms v] obtain x where
    x: "one [x \<leftarrow> tDetails d. d_id x = v_details_id v] = Inr x"
       "venue_place d v = Some (d_city x, d_state x)" by auto
  have "distinct (List.insert (d_city x, d_state x) acc)"
    using Cons.prems(2) by simp
  from Cons.IH [OF vs this] obtain ps where
    ps: "places_loop d vs (List.insert (d_city x, d_state x) acc) = Inr ps" "distinct ps"
        "set ps = set (List.insert (d_city x, d_state x) acc) \<union>
                  {p. \<exists>v \<in> set vs. venue_place d v = Some p}" by auto
  have "set ps = set acc \<union> {p. \<exists>u \<in> set (v # vs). venue_place d u = Some p}"
    using ps(3) x(2) by auto
  with ps(1,2) x(1) show ?case by simp
qed

lemma venues_at_result:
  assumes "wf_db d"
  shows "set vs \<subseteq> set (tVenue d) \<Longrightarrow>
         venues_at d place vs acc =
           Inr (acc @ map venue_entry [v \<leftarrow> vs. venue_place d v = Some place])"
proof (induction vs arbitrary: acc)
  case Nil
  then show ?case by simp
next
  case (Cons v vs)
  from Cons.prems have v: "v \<in> set (tVenue d)" and vs: "set vs \<subseteq> set (tVenue d)" by auto
  from venue_place_Some [OF assms v] obtain x where
    x: "one [x \<leftarrow> tDetails d. d_id x = v_details_id v] = Inr x"
       "venue_place d v = Some (d_city x, d_state x)" by auto
  have eq: "(d_city x = fst place \<and> d_state x = snd place) \<longleftrightarrow> (d_city x, d_state x) = place"
    by (cases place) auto
  show ?case
    using Cons.IH [OF vs] by (simp add: x eq venue_entry_def)
qed

lemma areas_loop_result:
  assumes "wf_db d"
  shows "areas_loop d ps acc = Inr (acc @ map (area_group d) ps)"
proof (induction ps arbitrary: acc)
  case Nil
  then show ?case by simp
next
  case (Cons p ps)
  have "venues_at d p (tVenue d) [] =
          Inr (map venue_entry [v \<leftarrow> tVenue d. venue_place d v = Some p])"
    using venues_at_result [OF assms, of "tVenue d" p "[]"] by simp
  then show ?case
    using Cons.IH by (simp add: area_group_def)
qed

text \<open>
  C9. In a database that meets the constraints of the schema the listing is rendered with
  one group for each place that occurs among the venues and no place twice; the group of a
  place lists the entries of exactly the venues whose \<^verbatim>\<open>Details\<close> row has that city and
  state (\<open>area_group\<close>); and every venue is in the group of exactly one place of the
  listing.
\<close>

theorem venues_grouped_by_place:
  assumes "wf_db d"
  shows "\<exists>places.
           venues d = Inr (Render ''pages/venues.html''
                             [(''areas'', PList (map (area_group d) places))] []) \<and>
           distinct places \<and>
           set places = {p. \<exists>v \<in> set (tVenue d). venue_place d v = Some p} \<and>
           (\<forall>v \<in> set (tVenue d). length [p \<leftarrow> places. venue_place d v = Some p] = 1)"
proof -
  from places_loop_result [OF assms, of "tVenue d" "[]"] obtain ps where
    ps: "places_loop d (tVenue d) [] = Inr ps" "distinct ps"
        "set ps = {p. \<exists>v \<in> set (tVenue d). venue_place d v = Some p}" by auto
  have v: "venues d = Inr (Render ''pages/venues.html''
                             [(''areas'', PList (map (area_group d) ps))] [])"
    using areas_loop_result [OF assms, of ps "[]"] by (simp add: venues_def and_then_def ps(1))
  have "length [p \<leftarrow> ps. venue_place d v = Some p] = 1" if "v \<in> set (tVenue d)" for v
  proof -
    from venue_place_Some [OF assms that] obtain q where q: "venue_place d v = Some q" by auto
    with that ps(3) have "q \<in> set ps" by auto
    have "[p \<leftarrow> ps. venue_place d v = Some p] = [p \<leftarrow> ps. id p = id q]"
      using q by (auto intro: filter_cong)
    also have "\<dots> = [q]"
      using filter_key_distinct [of id ps q] \<open>distinct ps\<close> \<open>q \<in> set ps\<close> by simp
    finally show ?thesis by simp
  qed
  with v ps(2,3) show ?thesis by blast
qed

theorem venues_grouped_by_place_witness:
  "wf_db example_db \<and>
   (\<exists>places.
       venues example_db = Inr (Render ''pages/venues.html''
                                  [(''areas'', PList (map (area_group example_db) places))] []) \<and>
       distinct places \<and>
       set places = {p. \<exists>v \<in> set (tVenue example_db). venue_place example_db v = Some p} \<and>
       (\<forall>v \<in> set (tVenue example_db).
           length [p \<leftarrow> places. venue_place example_db v = Some p] = 1))"
proof -
  have wf: "wf_db example_db"
    by (simp add: wf_db_def example_db_def details_fit_def fits_def)
  show ?thesis
    using venues_grouped_by_place [OF wf] wf by blast
qed

text \<open>The listing of \<open>example_db\<close>, computed.\<close>

lemma venues_example:
  "venues example_db =
     Inr (Render ''pages/venues.html''
       [(''areas'',
         PList
          [PDict
            [(''city'', PStr ''New York''), (''state'', PStr ''NY''),
             (''venues'',
              PList [PDict [(''id'', PInt 2), (''name'', PStr ''Dueling Pianos'')]])],
           PDict
            [(''city'', PStr ''San Francisco''), (''state'', PStr ''CA''),
             (''venues'',
              PList [PDict [(''id'', PInt 1), (''name'', PStr ''The Dive Bar'')]])]])]
       [])"
  by code_simp


subsection \<open>Creating a venue with a genre that does not exist\<close>

lemma genres_loop_missing:
  "\<exists>g \<in> set gs. Some g \<notin> set (map g_name (tGenre d)) \<Longrightarrow>
     \<exists>e. genres_loop d gs acc = Inl e"
proof (induction gs arbitrary: acc)
  case Nil
  then show ?case by simp
next
  case (Cons g gs)
  show ?case
  proof (cases "Some g \<in> set (map g_name (tGenre d))")
    case True
    with Cons.prems have "\<exists>g \<in> set gs. Some g \<notin> set (map g_name (tGenre d))" by auto
    from Cons.IH [OF this] show ?thesis
      by (auto split: sum.splits)
  next
    case False
    then have "\<And>x. x \<in> set (tGenre d) \<Longrightarrow> g_name x \<noteq> Some g"
      by (metis imageI list.set_map)
    then have "[x \<leftarrow> tGenre d. g_name x = Some g] = []"
      by (simp add: filter_empty_conv)
    then show ?thesis by (simp add: one_def)
  qed
qed

lemma create_venue_try_unknown_genre:
  assumes "\<exists>g \<in> set genres. Some g \<notin> set (map g_name (tGenre d))"
  shows "\<exists>e d'. create_venue_try d genres name city state address phone facebook_link = (d', Inl e) \<and>
           tVenue d' = tVenue d \<and> t_venue_genres d' = t_venue_genres d \<and>
           length (tDetails d') = length (tDetails d) +
             (if fits 120 (Some city) \<and> fits 120 (Some state) \<and> fits 120 (Some phone) \<and>
                 fits 120 (Some facebook_link) then 1 else 0)"
proof -
  define nd where "nd =
     \<lparr>d_id = fresh_id (map d_id (tDetails d)), d_city = Some city,
      d_state = Some state, d_address = Some address, d_phone = Some phone,
      d_website = None, d_image_link = None, d_facebook_link = Some facebook_link\<rparr>"
  define d1 where "d1 = d\<lparr>tDetails := tDetails d @ [nd]\<rparr>"
  have fit: "details_fit nd \<longleftrightarrow>
      fits 120 (Some city) \<and> fits 120 (Some state) \<and> fits 120 (Some phone) \<and>
      fits 120 (Some facebook_link)"
    by (simp add: nd_def details_fit_def fits_def)
  have "tGenre d1 = tGenre d" by (simp add: d1_def)
  with assms genres_loop_missing [of genres d1 "[]"] obtain e where
    e: "genres_loop d1 genres [] = Inl e" by auto
  show ?thesis
  proof (cases "details_fit nd")
    case False
    then have "create_venue_try d genres name city state address phone facebook_link =
                 (d, Inl DataError)"
      by (simp add: create_venue_try_def nd_def [symmetric] Let_def)
    with False fit show ?thesis by simp
  next
    case True
    then have "\<exists>e'. create_venue_try d genres name city state address phone facebook_link =
                 (d1, Inl e')"
      by (simp add: create_venue_try_def nd_def [symmetric] d1_def [symmetric] Let_def
            and_then_def e split: sum.splits)
    with True fit show ?thesis by (auto simp: d1_def)
  qed
qed

text \<open>
  C1, amended. When the genre list of a create-venue submission names a genre that is not
  in the \<^verbatim>\<open>Genre\<close> table, the operation does not succeed and neither a venue nor a row
  of \<^verbatim>\<open>venue_genres\<close> is persisted. The \<^verbatim>\<open>Details\<close> row, however, is committed
  before the genres are looked up and the rollback does not reach it: the table has one
  row more when the form can be stored (all text fields present and within the declared
  lengths), and is unchanged otherwise.
\<close>

theorem create_venue_unknown_genre_keeps_details_row:
  assumes "\<exists>g \<in> set (vf_genres form). Some g \<notin> set (map g_name (tGenre d))"
  shows "tVenue (fst (create_venue_submission d form)) = tVenue d \<and>
         t_venue_genres (fst (create_venue_submission d form)) = t_venue_genres d \<and>
         (\<forall>t kw fl. snd (create_venue_submission d form) \<noteq> Inr (Render t kw fl)) \<and>
         length (tDetails (fst (create_venue_submission d form))) =
           length (tDetails d) + (if venue_form_storable form then 1 else 0)"
proof (cases "vf_name form = None \<or> vf_city form = None \<or> vf_state form = None \<or>
              vf_address form = None \<or> vf_phone form = None \<or> vf_facebook_link form = None")
  case True
  then have "create_venue_submission d form = (d, Inl AttributeError)"
    by (auto simp: create_venue_submission_def strip_data_def Let_def split: option.splits)
  moreover from True have "\<not> venue_form_storable form"
    by (auto simp: venue_form_storable_def)
  ultimately show ?thesis by simp
next
  case False
  then obtain name city state address phone facebook_link where
    f: "vf_name form = Some name" "vf_city form = Some city" "vf_state form = Some state"
       "vf_address form = Some address" "vf_phone form = Some phone"
       "vf_facebook_link form = Some facebook_link"
    by auto
  from create_venue_try_unknown_genre [OF assms]
  obtain e d' where
    t: "create_venue_try d (vf_genres form) (strip name) (strip city) (strip state)
          (strip address) (strip phone) (strip facebook_link) = (d', Inl e)"
       "tVenue d' = tVenue d" "t_venue_genres d' = t_venue_genres d"
       "length (tDetails d') = length (tDetails d) +
             (if fits 120 (Some (strip city)) \<and> fits 120 (Some (strip state)) \<and>
                 fits 120 (Some (strip phone)) \<and> fits 120 (Some (strip facebook_link))
              then 1 else 0)"
    by blast
  have r: "create_venue_submission d form =
             (d', Inr (Redirect ''create_venue_submission'' []
                         [''An error occurred. Venue '' @ strip name @ '' could not be listed.'']))"
    by (simp add: create_venue_submission_def strip_data_def Let_def f t(1))
  have s: "venue_form_storable form \<longleftrightarrow>
             fits 120 (Some (strip city)) \<and> fits 120 (Some (strip state)) \<and>
             fits 120 (Some (strip phone)) \<and> fits 120 (Some (strip facebook_link))"
    by (simp add: venue_form_storable_def f)
  show ?thesis
    by (simp add: r t(2,3,4) s)
qed

theorem create_venue_unknown_genre_keeps_details_row_witness:
  "(\<exists>g \<in> set (vf_genres rock_venue_form). Some g \<notin> set (map g_name (tGenre example_db))) \<and>
   venue_form_storable rock_venue_form \<and>
   tVenue (fst (create_venue_submission example_db rock_venue_form)) = tVenue example_db \<and>
   length (tDetails (fst (create_venue_submission example_db rock_venue_form))) =
     length (tDetails example_db) + 1"
proof -
  have g: "\<exists>g \<in> set (vf_genres rock_venue_form). Some g \<notin> set (map g_name (tGenre example_db))"
    by (simp add: rock_venue_form_def example_db_def)
  have s: "venue_form_storable rock_venue_form"
    by (simp add: venue_form_storable_def rock_venue_form_def fits_def strip_def isspace_def)
  show ?thesis
    using create_venue_unknown_genre_keeps_details_row [OF g] g s by simp
qed

text \<open>
  C1 as stated fails: \<open>Rock\<close> is not a genre of \<open>example_db\<close>, and submitting
  \<open>rock_venue_form\<close> takes the \<^verbatim>\<open>Details\<close> table from three rows to four while the
  \<^verbatim>\<open>Venue\<close> table keeps its two.
\<close>

theorem create_venue_unknown_genre_counterexample:
  "Some ''Rock'' \<notin> set (map g_name (tGenre example_db)) \<and>
   vf_genres rock_venue_form = [''Rock''] \<and>
   length (tDetails example_db) = 3 \<and>
   length (tDetails (fst (create_venue_submission example_db rock_venue_form))) = 4 \<and>
   length (tVenue example_db) = 2 \<and>
   length (tVenue (fst (create_venue_submission example_db rock_venue_form))) = 2"
  by code_simp


subsection \<open>Deleting a venue\<close>

lemma http_status_raised: "http_status (Inl e) = 500"
  by (simp add: http_status_def)

lemma delete_venue_missing:
  assumes "sql_int venue_id = Inr vid" and "vid \<notin> set (map v_id (tVenue d))"
  shows "delete_venue names d venue_id = (d, Inl NoResultFound)"
proof -
  from assms(2) have "\<And>v. v \<in> set (tVenue d) \<Longrightarrow> v_id v \<noteq> vid"
    by (metis imageI list.set_map)
  then have "[v \<leftarrow> tVenue d. v_id v = vid] = []"
    by (simp add: filter_empty_conv)
  then show ?thesis
    by (simp add: delete_venue_def assms(1) one_def)
qed

lemma delete_venue_present:
  assumes "sql_int venue_id = Inr vid" and "distinct (map v_id (tVenue d))"
      and "vid \<in> set (map v_id (tVenue d))"
  shows "delete_venue names d venue_id =
           (if [s \<leftarrow> tShow d. s_venue_id s = vid] \<noteq> [] then (d, Inl InternalServerError)
            else (d\<lparr>tVenue := [v \<leftarrow> tVenue d. v_id v \<noteq> vid],
                    t_venue_genres := [r \<leftarrow> t_venue_genres d. snd r \<noteq> vid]\<rparr>,
                  if jsonify_bound names then Inr (Json (PDict [(''deleted'', PBool True)]))
                  else Inl NameError))"
proof -
  from one_by_key [OF assms(2,3)] obtain v where
    v: "v_id v = vid" "one [v \<leftarrow> tVenue d. v_id v = vid] = Inr v" by auto
  show ?thesis
    by (simp add: delete_venue_def assms(1) v venue_shows_def Let_def)
qed

lemma delete_venue_unreadable:
  assumes "sql_int venue_id = Inl e"
  shows "delete_venue names d venue_id = (d, Inl e)"
  by (simp add: delete_venue_def assms)

text \<open>
  C2, amended. Let the venue ids be distinct. If the path segment reads as an id that a
  venue has and no show references it, the venue and its rows of \<^verbatim>\<open>venue_genres\<close> are
  removed and nothing else of the two tables is, and the response is the JSON body
  \<open>{"deleted": true}\<close> wherever the name \<^verbatim>\<open>jsonify\<close> is bound. If a venue has that id and
  a show references it, nothing is removed and the status is 500. If no venue has that id,
  or the path segment does not read as an integer, nothing changes and the status is 500.
\<close>

theorem delete_venue_outcomes:
  assumes "distinct (map v_id (tVenue d))"
  shows "(sql_int venue_id = Inr vid \<and> vid \<in> set (map v_id (tVenue d)) \<and>
          (\<forall>s \<in> set (tShow d). s_venue_id s \<noteq> vid) \<longrightarrow>
            tVenue (fst (delete_venue names d venue_id)) = [v \<leftarrow> tVenue d. v_id v \<noteq> vid] \<and>
            t_venue_genres (fst (delete_venue names d venue_id)) =
              [r \<leftarrow> t_venue_genres d. snd r \<noteq> vid] \<and>
            vid \<notin> set (map v_id (tVenue (fst (delete_venue names d venue_id)))) \<and>
            vid \<notin> set (map snd (t_venue_genres (fst (delete_venue names d venue_id)))) \<and>
            (jsonify_bound names \<longrightarrow>
               snd (delete_venue names d venue_id) =
                 Inr (Json (PDict [(''deleted'', PBool True)])))) \<and>
         (sql_int venue_id = Inr vid \<and> vid \<in> set (map v_id (tVenue d)) \<and>
          (\<exists>s \<in> set (tShow d). s_venue_id s = vid) \<longrightarrow>
            fst (delete_venue names d venue_id) = d \<and>
            http_status (snd (delete_venue names d venue_id)) = 500) \<and>
         (sql_int venue_id = Inr vid \<and> vid \<notin> set (map v_id (tVenue d)) \<longrightarrow>
            fst (delete_venue names d venue_id) = d \<and>
            http_status (snd (delete_venue names d venue_id)) = 500) \<and>
         ((\<exists>e. sql_int venue_id = Inl e) \<longrightarrow>
            fst (delete_venue names d venue_id) = d \<and>
            http_status (snd (delete_venue names d venue_id)) = 500)"
proof (intro conjI impI)
  assume a: "sql_int venue_id = Inr vid \<and> vid \<in> set (map v_id (tVenue d)) \<and>
             (\<forall>s \<in> set (tShow d). s_venue_id s \<noteq> vid)"
  then have none: "[s \<leftarrow> tShow d. s_venue_id s = vid] = []"
    by (simp add: filter_empty_conv)
  from a have i: "sql_int venue_id = Inr vid" and p: "vid \<in> set (map v_id (tVenue d))"
    by simp_all
  note r = delete_venue_present [OF i assms p, of names]
  show "tVenue (fst (delete_venue names d venue_id)) = [v \<leftarrow> tVenue d. v_id v \<noteq> vid]"
    by (simp add: r none)
  then show "vid \<notin> set (map v_id (tVenue (fst (delete_venue names d venue_id))))"
    by auto
  show "t_venue_genres (fst (delete_venue names d venue_id)) =
          [r \<leftarrow> t_venue_genres d. snd r \<noteq> vid]"
    by (simp add: r none)
  then show "vid \<notin> set (map snd (t_venue_genres (fst (delete_venue names d venue_id))))"
    by auto
  show "snd (delete_venue names d venue_id) = Inr (Json (PDict [(''deleted'', PBool True)]))"
    if "jsonify_bound names"
    using that by (simp add: r none)
next
  assume a: "sql_int venue_id = Inr vid \<and> vid \<in> set (map v_id (tVenue d)) \<and>
             (\<exists>s \<in> set (tShow d). s_venue_id s = vid)"
  then have some: "[s \<leftarrow> tShow d. s_venue_id s = vid] \<noteq> []"
    by (simp add: filter_empty_conv)
  from a have i: "sql_int venue_id = Inr vid" and p: "vid \<in> set (map v_id (tVenue d))"
    by simp_all
  note r = delete_venue_present [OF i assms p, of names]
  show "fst (delete_venue names d venue_id) = d"
    by (simp add: r some)
  show "http_status (snd (delete_venue names d venue_id)) = 500"
    by (simp add: r some http_status_raised)
next
  assume a: "sql_int venue_id = Inr vid \<and> vid \<notin> set (map v_id (tVenue d))"
  then have i: "sql_int venue_id = Inr vid" and m: "vid \<notin> set (map v_id (tVenue d))"
    by simp_all
  note r = delete_venue_missing [OF i m, of names]
  show "fst (delete_venue names d venue_id) = d"
    by (simp add: r)
  show "http_status (snd (delete_venue names d venue_id)) = 500"
    by (simp add: r http_status_raised)
next
  assume "\<exists>e. sql_int venue_id = Inl e"
  then obtain e where e: "sql_int venue_id = Inl e" by blast
  note r = delete_venue_unreadable [OF e, of names d]
  show "fst (delete_venue names d venue_id) = d"
    by (simp add: r)
  show "http_status (snd (delete_venue names d venue_id)) = 500"
    by (simp add: r http_status_raised)
qed

lemma sql_int_2: "sql_int ''2'' = Inr 2"
  by code_simp

theorem delete_venue_outcomes_witness:
  "distinct (map v_id (tVenue example_db)) \<and> sql_int ''2'' = Inr 2 \<and>
   2 \<in> set (map v_id (tVenue example_db)) \<and>
   [s \<leftarrow> tShow example_db. s_venue_id s = 2] = [] \<and>
   jsonify_bound both_names \<and>
   t_venue_genres example_db = [(1, 1), (2, 2)] \<and>
   t_venue_genres (fst (delete_venue both_names example_db ''2'')) = [(1, 1)] \<and>
   2 \<notin> set (map v_id (tVenue (fst (delete_venue both_names example_db ''2'')))) \<and>
   2 \<notin> set (map snd (t_venue_genres (fst (delete_venue both_names example_db ''2'')))) \<and>
   snd (delete_venue both_names example_db ''2'') =
     Inr (Json (PDict [(''deleted'', PBool True)]))"
proof -
  have d: "distinct (map v_id (tVenue example_db))"
    by (simp add: example_db_def)
  have p: "2 \<in> set (map v_id (tVenue example_db))"
    by (simp add: example_db_def)
  have n: "[s \<leftarrow> tShow example_db. s_venue_id s = 2] = []"
    by (simp add: example_db_def)
  then have s: "\<forall>s \<in> set (tShow example_db). s_venue_id s \<noteq> 2"
    by (simp add: filter_empty_conv)
  have j: "jsonify_bound both_names"
    by (simp add: both_names_def)
  have before: "t_venue_genres example_db = [(1, 1), (2, 2)]"
    by (simp add: example_db_def)
  have rows: "[r \<leftarrow> t_venue_genres example_db. snd r \<noteq> 2] = [(1, 1)]"
    by (simp add: example_db_def)
  from delete_venue_outcomes [OF d, of "''2''" 2 both_names] sql_int_2 p s
  have after: "t_venue_genres (fst (delete_venue both_names example_db ''2'')) =
                 [r \<leftarrow> t_venue_genres example_db. snd r \<noteq> 2]"
    and gone: "2 \<notin> set (map v_id (tVenue (fst (delete_venue both_names example_db ''2''))))"
    and gone': "2 \<notin> set (map snd (t_venue_genres (fst (delete_venue both_names example_db ''2''))))"
    and resp: "jsonify_bound both_names \<longrightarrow>
               snd (delete_venue both_names example_db ''2'') =
                 Inr (Json (PDict [(''deleted'', PBool True)]))"
    by blast+
  from after rows have after': "t_venue_genres (fst (delete_venue both_names example_db ''2'')) =
                 [(1, 1)]"
    by simp
  from d sql_int_2 p n j before after' gone gone' resp show ?thesis
    by blast
qed

text \<open>A path segment that is not a number: nothing changes and the status is 500.\<close>

lemma delete_venue_not_a_number:
  "delete_venue both_names example_db ''abc'' = (example_db, Inl DataError) \<and>
   http_status (snd (delete_venue both_names example_db ''abc'')) = 500"
  by code_simp

text \<open>
  C2 as stated fails for a venue that has shows: venue 1 of \<open>example_db\<close> is present,
  and deleting it leaves the database as it was and answers 500.
\<close>

theorem delete_venue_with_shows_counterexample:
  "1 \<in> set (map v_id (tVenue example_db)) \<and>
   delete_venue both_names example_db ''1'' = (example_db, Inl InternalServerError) \<and>
   http_status (snd (delete_venue both_names example_db ''1'')) = 500"
  by code_simp

subsection \<open>Trimming of the submitted fields\<close>

text \<open>
  C7 fails in \<^verbatim>\<open>edit_artist_submission\<close>, which reads \<^verbatim>\<open>form.phone.data\<close> without
  \<^verbatim>\<open>strip()\<close>: the phone number submitted with a blank on either side is stored with
  the blanks, while \<^verbatim>\<open>edit_venue_submission\<close> stores the same submission trimmed.
\<close>

theorem edit_artist_keeps_phone_blanks:
  "map d_phone [x \<leftarrow> tDetails (fst (edit_artist_submission example_db 1 padded_artist_form)).
                   d_id x = 3] = [Some '' 326-123-5000 ''] \<and>
   map d_phone [x \<leftarrow> tDetails (fst (edit_venue_submission example_db 1 padded_venue_form)).
                   d_id x = 1] = [Some ''326-123-5000''] \<and>
   strip '' 326-123-5000 '' = ''326-123-5000''"
  by code_simp


subsection \<open>The \<open>upcoming\<close> flag\<close>

text \<open>No handler but \<open>create_show_submission\<close> writes the \<^verbatim>\<open>Show\<close> table.\<close>

lemma fold_max_upper:
  "(a::int) \<le> fold max ids a \<and> (\<forall>i \<in> set ids. i \<le> fold max ids a)"
proof (induction ids arbitrary: a)
  case Nil
  then show ?case by simp
next
  case (Cons i ids)
  from Cons.IH [of "max i a"] show ?case by auto
qed

lemma fresh_id_new: "fresh_id ids \<notin> set ids"
proof
  assume "fresh_id ids \<in> set ids"
  with fold_max_upper [of 0 ids] have "fresh_id ids \<le> fold max ids 0" by blast
  then show False by (simp add: fresh_id_def)
qed

lemma create_venue_try_shows:
  "create_venue_try d genres name city state address phone facebook_link = (d', r) \<Longrightarrow>
     tShow d' = tShow d"
  by (auto simp: create_venue_try_def Let_def and_then_def split: sum.splits if_splits)

lemma create_venue_submission_shows:
  "tShow (fst (create_venue_submission d form)) = tShow d"
  by (auto simp: create_venue_submission_def Let_def split: sum.splits prod.splits
        dest: create_venue_try_shows)

lemma create_artist_try_shows:
  "create_artist_try d genres name city state phone facebook_link = (d', r) \<Longrightarrow>
     tShow d' = tShow d"
  by (auto simp: create_artist_try_def Let_def and_then_def split: sum.splits if_splits)

lemma create_artist_submission_shows:
  "tShow (fst (create_artist_submission d form)) = tShow d"
  by (auto simp: create_artist_submission_def Let_def split: sum.splits prod.splits
        dest: create_artist_try_shows)

lemma edit_artist_try_shows:
  "edit_artist_try d artist detail genres name city state phone facebook_link = Inr d' \<Longrightarrow>
     tShow d' = tShow d"
  by (auto simp: edit_artist_try_def Let_def and_then_def split: sum.splits if_splits)

lemma edit_artist_submission_shows:
  "tShow (fst (edit_artist_submission d artist_id form)) = tShow d"
  by (auto simp: edit_artist_submission_def Let_def split: sum.splits option.splits
        dest: edit_artist_try_shows)

lemma edit_venue_try_shows:
  "edit_venue_try d venue detail genres name city state phone facebook_link = Inr d' \<Longrightarrow>
     tShow d' = tShow d"
  by (auto simp: edit_venue_try_def Let_def and_then_def split: sum.splits if_splits)

lemma edit_venue_submission_shows:
  "tShow (fst (edit_venue_submission d venue_id form)) = tShow d"
  by (auto simp: edit_venue_submission_def Let_def split: sum.splits option.splits
        dest: edit_venue_try_shows)

lemma delete_venue_shows:
  "tShow (fst (delete_venue names d venue_id)) = tShow d"
  by (simp add: delete_venue_def Let_def split: sum.splits)

lemma create_show_try_shows:
  "create_show_try d artistId venueId startTime upcomingShow = Inr d' \<Longrightarrow>
     \<exists>aid vid. tShow d' = tShow d @
        [\<lparr>s_id = fresh_id (map s_id (tShow d)), s_artist_id = aid, s_venue_id = vid,
          s_upcoming = upcomingShow, s_start_time = Some startTime\<rparr>]"
  by (auto simp: create_show_try_def and_then_def split: sum.splits if_splits)

lemma create_show_submission_shows:
  "tShow (fst (create_show_submission names now d form)) = tShow d \<or>
   (\<exists>aid vid startTime.
      sf_start_time form = Some startTime \<and>
      tShow (fst (create_show_submission names now d form)) = tShow d @
        [\<lparr>s_id = fresh_id (map s_id (tShow d)), s_artist_id = aid, s_venue_id = vid,
          s_upcoming = (startTime > now), s_start_time = Some startTime\<rparr>])"
  by (auto simp: create_show_submission_def Let_def split: sum.splits option.splits
        dest!: create_show_try_shows)

lemma handle_shows:
  "\<exists>new. tShow (fst (handle names now d req)) = tShow d @ new \<and>
         (distinct (map s_id (tShow d)) \<longrightarrow> distinct (map s_id (tShow d @ new)))"
proof (cases req)
  case (PostCreateShow form)
  from create_show_submission_shows [of names now d form] fresh_id_new [of "map s_id (tShow d)"]
  show ?thesis
    by (auto simp: handle_def PostCreateShow)
qed (simp_all add: handle_def create_venue_submission_shows create_artist_submission_shows
       edit_artist_submission_shows edit_venue_submission_shows delete_venue_shows)

lemma run_shows:
  "distinct (map s_id (tShow d)) \<Longrightarrow>
     \<exists>new. tShow (run names d reqs) = tShow d @ new \<and>
           distinct (map s_id (tShow d @ new))"
proof (induction reqs arbitrary: d)
  case Nil
  then show ?case by simp
next
  case (Cons nr reqs)
  obtain now req where nr: "nr = (now, req)" by (cases nr) auto
  from handle_shows [of names now d req] Cons.prems obtain new where
    n: "tShow (fst (handle names now d req)) = tShow d @ new"
       "distinct (map s_id (tShow d @ new))" by auto
  then have "distinct (map s_id (tShow (fst (handle names now d req))))" by simp
  from Cons.IH [OF this] obtain new' where
    n': "tShow (run names (fst (handle names now d req)) reqs) =
           tShow (fst (handle names now d req)) @ new'"
        "distinct (map s_id (tShow (fst (handle names now d req)) @ new'))" by auto
  have "tShow (run names d (nr # reqs)) = tShow d @ (new @ new')"
    using n(1) n'(1) by (simp add: nr)
  moreover have "distinct (map s_id (tShow d @ (new @ new')))"
    using n(1) n'(2) by simp
  ultimately show ?case by blast
qed

text \<open>
  C6. A show is written by \<open>create_show_submission\<close> only, which appends one row whose
  \<open>upcoming\<close> flag is the comparison of the submitted \<^verbatim>\<open>start_time\<close> with the time of
  the request. In a table with distinct show ids, after any run of requests arriving at any
  times every show is still in the table, and it is the only row with its id: every later
  read finds the flag as it was written, whatever the time has become.
\<close>

theorem upcoming_flag_set_once_at_creation:
  assumes "distinct (map s_id (tShow d))"
  shows "(tShow (fst (create_show_submission names now d form)) = tShow d \<or>
          (\<exists>s startTime.
             sf_start_time form = Some startTime \<and>
             tShow (fst (create_show_submission names now d form)) = tShow d @ [s] \<and>
             s_start_time s = Some startTime \<and>
             s_upcoming s = (startTime > now))) \<and>
         distinct (map s_id (tShow (fst (create_show_submission names now d form)))) \<and>
         distinct (map s_id (tShow (run names d reqs))) \<and>
         (\<forall>s \<in> set (tShow d).
             s \<in> set (tShow (run names d reqs)) \<and>
             (\<forall>s' \<in> set (tShow (run names d reqs)). s_id s' = s_id s \<longrightarrow> s' = s))"
proof -
  have created: "tShow (fst (create_show_submission names now d form)) = tShow d \<or>
          (\<exists>s startTime.
             sf_start_time form = Some startTime \<and>
             tShow (fst (create_show_submission names now d form)) = tShow d @ [s] \<and>
             s_start_time s = Some startTime \<and>
             s_upcoming s = (startTime > now))"
    using create_show_submission_shows [of names now d form] by auto
  from handle_shows [of names now d "PostCreateShow form"] assms
  have d1: "distinct (map s_id (tShow (fst (create_show_submission names now d form))))"
    by (auto simp: handle_def)
  from run_shows [OF assms, of names reqs] obtain new where
    n: "tShow (run names d reqs) = tShow d @ new" "distinct (map s_id (tShow d @ new))"
    by auto
  then have dist: "distinct (map s_id (tShow (run names d reqs)))" by simp
  have kept: "s \<in> set (tShow (run names d reqs)) \<and>
              (\<forall>s' \<in> set (tShow (run names d reqs)). s_id s' = s_id s \<longrightarrow> s' = s)"
    if s: "s \<in> set (tShow d)" for s
  proof -
    from s n(1) have in_run: "s \<in> set (tShow (run names d reqs))" by simp
    have "s' = s" if "s' \<in> set (tShow (run names d reqs))" "s_id s' = s_id s" for s'
      using that in_run dist by (metis distinct_map inj_onD)
    with in_run show ?thesis by blast
  qed
  from created d1 dist kept show ?thesis by blast
qed


theorem upcoming_flag_set_once_at_creation_witness:
  "distinct (map s_id (tShow example_db)) \<and>
   tShow (fst (create_show_submission both_names 200 example_db future_show_form)) =
     tShow example_db @
       [\<lparr>s_id = 3, s_artist_id = 1, s_venue_id = 2, s_upcoming = True,
         s_start_time = Some 500\<rparr>] \<and>
   \<lparr>s_id = 3, s_artist_id = 1, s_venue_id = 2, s_upcoming = True, s_start_time = Some 500\<rparr>
     \<in> set (tShow (run both_names
                     (fst (create_show_submission both_names 200 example_db future_show_form))
                     later_requests)) \<and>
   [s' \<leftarrow> tShow (run both_names
                   (fst (create_show_submission both_names 200 example_db future_show_form))
                   later_requests). s_id s' = 3] =
     [\<lparr>s_id = 3, s_artist_id = 1, s_venue_id = 2, s_upcoming = True,
       s_start_time = Some 500\<rparr>]"
proof -
  define d1 where
    "d1 = fst (create_show_submission both_names 200 example_db future_show_form)"
  define s where
    "s = \<lparr>s_id = 3, s_artist_id = 1, s_venue_id = 2, s_upcoming = True,
          s_start_time = Some (500::int)\<rparr>"
  have d0: "distinct (map s_id (tShow example_db))"
    by (simp add: example_db_def)
  have c: "tShow d1 = tShow example_db @ [s]"
    unfolding d1_def s_def by code_simp
  have d1: "distinct (map s_id (tShow d1))"
    using upcoming_flag_set_once_at_creation [OF d0, of both_names 200 future_show_form "[]"]
    by (simp add: d1_def)
  have "s \<in> set (tShow d1)"
    by (simp add: c)
  with upcoming_flag_set_once_at_creation [OF d1, of both_names 0 future_show_form later_requests]
  have kept: "s \<in> set (tShow (run both_names d1 later_requests))"
    and dist: "distinct (map s_id (tShow (run both_names d1 later_requests)))"
    by blast+
  have id: "s_id s = 3" by (simp add: s_def)
  from filter_key_distinct [OF dist kept]
  have "[s' \<leftarrow> tShow (run both_names d1 later_requests). s_id s' = 3] = [s]"
    by (simp add: id)
  with kept show ?thesis
    using d0 c unfolding d1_def s_def by simp
qed


subsection \<open>Replacing the genres of an artist\<close>

lemma one_Inr_iff: "one rows = Inr r \<longleftrightarrow> rows = [r]"
  by (auto simp: one_def split: list.splits)

lemma one_or_none_Some: "one_or_none rows = Inr (Some r) \<Longrightarrow> rows = [r]"
  by (auto simp: one_or_none_def split: list.splits)

lemma genres_loop_result:
  "genres_loop d gs acc = Inr collected \<Longrightarrow>
     \<exists>new. collected = acc @ new \<and>
           list_all2 (\<lambda>n g. [x \<leftarrow> tGenre d. g_name x = Some n] = [g]) gs new"
proof (induction gs arbitrary: acc)
  case Nil
  then show ?case by simp
next
  case (Cons n gs)
  from Cons.prems obtain g where
    g: "one [x \<leftarrow> tGenre d. g_name x = Some n] = Inr g"
       "genres_loop d gs (acc @ [g]) = Inr collected"
    by (auto split: sum.splits)
  from Cons.IH [OF g(2)] obtain new where
    new: "collected = (acc @ [g]) @ new"
         "list_all2 (\<lambda>n g. [x \<leftarrow> tGenre d. g_name x = Some n] = [g]) gs new" by auto
  from g(1) have "[x \<leftarrow> tGenre d. g_name x = Some n] = [g]"
    by (simp add: one_Inr_iff)
  with new have "collected = acc @ (g # new) \<and>
                 list_all2 (\<lambda>n g. [x \<leftarrow> tGenre d. g_name x = Some n] = [g]) (n # gs) (g # new)"
    by simp
  then show ?case by blast
qed

lemma list_all2_left:
  "list_all2 P xs ys \<Longrightarrow> x \<in> set xs \<Longrightarrow> \<exists>y \<in> set ys. P x y"
  by (induction rule: list_all2_induct) auto

lemma list_all2_right:
  "list_all2 P xs ys \<Longrightarrow> y \<in> set ys \<Longrightarrow> \<exists>x \<in> set xs. P x y"
  by (induction rule: list_all2_induct) auto

lemma sync_genres_result:
  assumes "sync_genres table owner original current = Inr table'"
      and "distinct table"
      and "set original = {g. (g, owner) \<in> set table}"
  shows "distinct table'"
    and "(g, owner) \<in> set table' \<longleftrightarrow> g \<in> set current"
    and "snd r \<noteq> owner \<Longrightarrow> r \<in> set table' \<longleftrightarrow> r \<in> set table"
proof -
  define added where "added = [g \<leftarrow> current. g \<notin> set original]"
  define deleted where "deleted = [g \<leftarrow> original. g \<notin> set current]"
  define kept where "kept = [r \<leftarrow> table. \<not> (snd r = owner \<and> fst r \<in> set deleted)]"
  define new_rows where "new_rows = map (\<lambda>g. (g, owner)) added"
  have "sync_genres table owner original current =
          (if pairs_insertable new_rows kept then Inr (kept @ new_rows) else Inl IntegrityError)"
    by (simp only: sync_genres_def Let_def added_def deleted_def kept_def new_rows_def)
  with assms(1) have t: "table' = kept @ new_rows" and ins: "pairs_insertable new_rows kept"
    by (auto split: if_splits)
  from assms(2) have "distinct kept" by (simp add: kept_def)
  with ins show "distinct table'"
    by (auto simp: t pairs_insertable_def)
  have k: "(g, owner) \<in> set kept \<longleftrightarrow> g \<in> set original \<and> g \<in> set current"
    using assms(3) by (auto simp: kept_def deleted_def)
  have n: "(g, owner) \<in> set new_rows \<longleftrightarrow> g \<in> set current \<and> g \<notin> set original"
    by (auto simp: new_rows_def added_def)
  from k n show "(g, owner) \<in> set table' \<longleftrightarrow> g \<in> set current"
    by (auto simp: t)
  show "r \<in> set table' \<longleftrightarrow> r \<in> set table" if "snd r \<noteq> owner"
    using that by (auto simp: t kept_def new_rows_def)
qed

lemma edit_artist_success:
  assumes "edit_artist_submission d artist_id form = (d', Inr resp)"
  shows "\<exists>collected.
           genres_loop d (af_genres form) [] = Inr collected \<and>
           sync_genres (t_artist_genres d) artist_id
             (map g_id [g \<leftarrow> tGenre d. (g_id g, artist_id) \<in> set (t_artist_genres d)])
             (map g_id collected) = Inr (t_artist_genres d') \<and>
           tGenre d' = tGenre d"
proof -
  from assms obtain artist detail name city state facebook_link where
    a: "one_or_none [a \<leftarrow> tArtist d. a_id a = artist_id] = Inr (Some artist)" and
    t: "edit_artist_try d artist detail (af_genres form) name city state (af_phone form)
          facebook_link = Inr d'"
    by (auto simp: edit_artist_submission_def Let_def split: sum.splits option.splits)
  from one_or_none_Some [OF a] have "artist \<in> set [a \<leftarrow> tArtist d. a_id a = artist_id]"
    by simp
  then have id: "a_id artist = artist_id" by simp
  from t show ?thesis
    by (auto simp: edit_artist_try_def Let_def and_then_def artist_genres_def id
          split: sum.splits if_splits)
qed

lemma length_filter_eq_distinct:
  "distinct xs \<Longrightarrow> x \<in> set xs \<Longrightarrow> length [y \<leftarrow> xs. y = x] = 1"
  using filter_key_distinct [of id xs x] by simp

text \<open>
  C5. In a database that meets the constraints of the schema, after an edit of an artist
  that succeeded (the handler answered with its redirect) the association table holds, for
  each submitted genre name, exactly one row of the artist whose genre has that name; every
  row of the artist is the row of a submitted genre, so no earlier association survives
  unless its genre was submitted again; and the rows of other artists are as before.
\<close>

theorem edit_artist_replaces_genres:
  assumes "wf_db d" and "edit_artist_submission d artist_id form = (d', Inr resp)"
  shows "(\<forall>n \<in> set (af_genres form).
            length [r \<leftarrow> t_artist_genres d'.
                      snd r = artist_id \<and>
                      (\<exists>g \<in> set (tGenre d'). g_id g = fst r \<and> g_name g = Some n)] = 1) \<and>
         (\<forall>r \<in> set (t_artist_genres d').
            snd r = artist_id \<longrightarrow>
            (\<exists>g \<in> set (tGenre d').
               g_id g = fst r \<and> (\<exists>n \<in> set (af_genres form). g_name g = Some n))) \<and>
         (\<forall>r. snd r \<noteq> artist_id \<longrightarrow>
            (r \<in> set (t_artist_genres d') \<longleftrightarrow> r \<in> set (t_artist_genres d)))"
proof -
  from edit_artist_success [OF assms(2)] obtain collected where
    loop: "genres_loop d (af_genres form) [] = Inr collected" and
    sync: "sync_genres (t_artist_genres d) artist_id
             (map g_id [g \<leftarrow> tGenre d. (g_id g, artist_id) \<in> set (t_artist_genres d)])
             (map g_id collected) = Inr (t_artist_genres d')" and
    genre: "tGenre d' = tGenre d"
    by blast
  from genres_loop_result [OF loop] have
    coll: "list_all2 (\<lambda>n g. [x \<leftarrow> tGenre d. g_name x = Some n] = [g]) (af_genres form) collected"
    by simp
  from assms(1) have dist: "distinct (t_artist_genres d)"
    and fk: "\<forall>r \<in> set (t_artist_genres d). fst r \<in> set (map g_id (tGenre d))"
    by (auto simp: wf_db_def)
  have orig: "set (map g_id [g \<leftarrow> tGenre d. (g_id g, artist_id) \<in> set (t_artist_genres d)]) =
                {g. (g, artist_id) \<in> set (t_artist_genres d)}"
  proof (intro set_eqI iffI)
    fix k assume "k \<in> set (map g_id [g \<leftarrow> tGenre d. (g_id g, artist_id) \<in> set (t_artist_genres d)])"
    then show "k \<in> {g. (g, artist_id) \<in> set (t_artist_genres d)}" by auto
  next
    fix k assume "k \<in> {g. (g, artist_id) \<in> set (t_artist_genres d)}"
    then have r: "(k, artist_id) \<in> set (t_artist_genres d)" by simp
    with fk have "k \<in> set (map g_id (tGenre d))" by fastforce
    then obtain g where "g \<in> set (tGenre d)" "g_id g = k" by auto
    with r show "k \<in> set (map g_id [g \<leftarrow> tGenre d. (g_id g, artist_id) \<in> set (t_artist_genres d)])"
      by auto
  qed
  note res = sync_genres_result [OF sync dist orig]
  have first: "length [r \<leftarrow> t_artist_genres d'.
                      snd r = artist_id \<and>
                      (\<exists>g \<in> set (tGenre d'). g_id g = fst r \<and> g_name g = Some n)] = 1"
    if n: "n \<in> set (af_genres form)" for n
  proof -
    from list_all2_left [OF coll n] obtain g where
      g: "g \<in> set collected" "[x \<leftarrow> tGenre d. g_name x = Some n] = [g]"
      by blast
    have only: "x \<in> set (tGenre d) \<and> g_name x = Some n \<longleftrightarrow> x = g" for x
    proof -
      have "x \<in> set [x \<leftarrow> tGenre d. g_name x = Some n] \<longleftrightarrow> x = g"
        unfolding g(2) by simp
      then show ?thesis by simp
    qed
    have cond: "(snd r = artist_id \<and>
                 (\<exists>x \<in> set (tGenre d'). g_id x = fst r \<and> g_name x = Some n)) \<longleftrightarrow>
                r = (g_id g, artist_id)" for r
    proof
      assume "snd r = artist_id \<and> (\<exists>x \<in> set (tGenre d'). g_id x = fst r \<and> g_name x = Some n)"
      then obtain x where x: "snd r = artist_id" "x \<in> set (tGenre d)" "g_id x = fst r"
        "g_name x = Some n" using genre by auto
      with only [of x] have "x = g" by simp
      with x show "r = (g_id g, artist_id)" by (metis prod.collapse)
    next
      assume "r = (g_id g, artist_id)"
      moreover from only [of g] have "g \<in> set (tGenre d)" "g_name g = Some n" by simp_all
      ultimately show "snd r = artist_id \<and>
          (\<exists>x \<in> set (tGenre d'). g_id x = fst r \<and> g_name x = Some n)"
        using genre by auto
    qed
    from g(1) have "g_id g \<in> set (map g_id collected)" by simp
    with res(2) have "(g_id g, artist_id) \<in> set (t_artist_genres d')" by simp
    from length_filter_eq_distinct [OF res(1) this] show ?thesis
      by (simp add: cond)
  qed
  have second: "\<exists>g \<in> set (tGenre d').
               g_id g = fst r \<and> (\<exists>n \<in> set (af_genres form). g_name g = Some n)"
    if r: "r \<in> set (t_artist_genres d')" "snd r = artist_id" for r
  proof -
    from r have "(fst r, artist_id) \<in> set (t_artist_genres d')" by (metis prod.collapse)
    with res(2) have "fst r \<in> set (map g_id collected)" by simp
    then obtain g where g: "g \<in> set collected" "g_id g = fst r" by auto
    from list_all2_right [OF coll g(1)] obtain n where
      n: "n \<in> set (af_genres form)" "[x \<leftarrow> tGenre d. g_name x = Some n] = [g]"
      by blast
    have "g \<in> set [x \<leftarrow> tGenre d. g_name x = Some n]"
      unfolding n(2) by simp
    then have "g \<in> set (tGenre d)" "g_name g = Some n" by simp_all
    with g(2) n(1) genre show ?thesis by auto
  qed
  from first second res(3) show ?thesis by blast
qed

theorem edit_artist_replaces_genres_witness:
  "wf_db example_db \<and>
   t_artist_genres example_db = [(1, 1)] \<and>
   af_genres padded_artist_form = [''Blues''] \<and>
   edit_artist_submission example_db 1 padded_artist_form =
     (fst (edit_artist_submission example_db 1 padded_artist_form),
      Inr (Redirect ''show_artist'' [(''artist_id'', PInt 1)] [])) \<and>
   t_artist_genres (fst (edit_artist_submission example_db 1 padded_artist_form)) = [(2, 1)] \<and>
   length [r \<leftarrow> t_artist_genres (fst (edit_artist_submission example_db 1 padded_artist_form)).
             snd r = 1 \<and>
             (\<exists>g \<in> set (tGenre (fst (edit_artist_submission example_db 1 padded_artist_form))).
                 g_id g = fst r \<and> g_name g = Some ''Blues'')] = 1"
proof -
  have wf: "wf_db example_db"
    by (simp add: wf_db_def example_db_def details_fit_def fits_def)
  have before: "t_artist_genres example_db = [(1, 1)]"
    by (simp add: example_db_def)
  have sub: "af_genres padded_artist_form = [''Blues'']"
    by (simp add: padded_artist_form_def)
  then have blues: "''Blues'' \<in> set (af_genres padded_artist_form)"
    by simp
  have ok: "edit_artist_submission example_db 1 padded_artist_form =
     (fst (edit_artist_submission example_db 1 padded_artist_form),
      Inr (Redirect ''show_artist'' [(''artist_id'', PInt 1)] []))"
    by code_simp
  have after: "t_artist_genres (fst (edit_artist_submission example_db 1 padded_artist_form)) =
                 [(2, 1)]"
    by code_simp
  show ?thesis
    using edit_artist_replaces_genres [OF wf ok] wf before sub blues ok after by blast
qed

end
